theory Spec2Isabelle
  imports Main
begin

section \<open>Python values, exceptions and string primitives\<close>

text \<open>
  The development embeds \<^verbatim>\<open>django_redis_sentinel/sentinel.py\<close>, the class
  \<^verbatim>\<open>SentinelClient\<close>. A Python \<^verbatim>\<open>str\<close> is a \<^typ>\<open>string\<close> whose characters
  are read as the code points below 256; strings with other code points are outside the model.

  An exception is its class together with the text \<^verbatim>\<open>str(e)\<close> gives. The classes are the
  ones the module names or can meet: the builtin \<^verbatim>\<open>ConnectionError\<close> (the module does not
  import the one of \<^verbatim>\<open>redis.exceptions\<close>, so the builtin is meant) with its four builtin
  subclasses, \<^verbatim>\<open>redis.exceptions.ReadOnlyError\<close>,
  \<^verbatim>\<open>django_redis.exceptions.ConnectionInterrupted\<close>, Django's
  \<^verbatim>\<open>ImproperlyConfigured\<close>, and \<^verbatim>\<open>ValueError\<close>, \<^verbatim>\<open>TypeError\<close>,
  \<^verbatim>\<open>IndexError\<close>. Three classes that the module does not name stand for the transport
  failures the store's client reports itself: \<^verbatim>\<open>redis.exceptions.ConnectionError\<close> and
  \<^verbatim>\<open>redis.exceptions.TimeoutError\<close> (here \<open>RedisConnectionError\<close>, \<open>RedisTimeoutError\<close>;
  both derive from \<^verbatim>\<open>RedisError\<close>) and the builtin \<^verbatim>\<open>TimeoutError\<close> (derived from
  \<^verbatim>\<open>OSError\<close>); none of them derives from the builtin \<^verbatim>\<open>ConnectionError\<close>.
  \<open>OtherException n\<close> stands for a class named \<open>n\<close> that is none of these and no subclass of
  them, such as \<^verbatim>\<open>redis.sentinel.MasterNotFoundError\<close>.
\<close>

datatype exn_class =
    ConnectionError
  | BrokenPipeError
  | ConnectionAbortedError
  | ConnectionRefusedError
  | ConnectionResetError
  | ReadOnlyError
  | ConnectionInterrupted
  | ImproperlyConfigured
  | ValueError
  | TypeError
  | IndexError
  | RedisConnectionError
  | RedisTimeoutError
  | TimeoutError
  | OtherException string

datatype exn = Exn exn_class string

fun exn_cls :: "exn \<Rightarrow> exn_class" where
  "exn_cls (Exn c m) = c"

fun exn_str :: "exn \<Rightarrow> string" where
  "exn_str (Exn c m) = m"

text \<open>\<open>issubclass c d\<close>: the class \<open>c\<close> is \<open>d\<close> or derives from it.\<close>

fun issubclass :: "exn_class \<Rightarrow> exn_class \<Rightarrow> bool" where
  "issubclass BrokenPipeError ConnectionError = True"
| "issubclass ConnectionAbortedError ConnectionError = True"
| "issubclass ConnectionRefusedError ConnectionError = True"
| "issubclass ConnectionResetError ConnectionError = True"
| "issubclass c d = (c = d)"

text \<open>An \<^verbatim>\<open>except (A, B, C)\<close> clause catches \<open>e\<close> when its class derives from one listed.\<close>

definition caught_by :: "exn \<Rightarrow> exn_class list \<Rightarrow> bool" where
  "caught_by e cs = list_ex (issubclass (exn_cls e)) cs"

text \<open>\<^verbatim>\<open>s.split(sep)\<close> for a one-character separator: always at least one piece.\<close>

fun py_split :: "char \<Rightarrow> string \<Rightarrow> string list" where
  "py_split sep [] = [[]]"
| "py_split sep (c # cs) =
     (if c = sep then [] # py_split sep cs
      else (case py_split sep cs of
              [] \<Rightarrow> [[c]]
            | p # ps \<Rightarrow> (c # p) # ps))"

text \<open>\<^verbatim>\<open>xs[i]\<close> for a constant index \<open>i \<ge> 0\<close>: \<^verbatim>\<open>IndexError\<close> out of range.\<close>

definition py_index :: "'a list \<Rightarrow> nat \<Rightarrow> exn + 'a" where
  "py_index xs i =
     (if i < length xs then Inr (xs ! i)
      else Inl (Exn IndexError ''list index out of range''))"

text \<open>
  The target list \<^verbatim>\<open>host, port\<close> of the comprehension unpacks a list of exactly two
  items and raises \<^verbatim>\<open>ValueError\<close> on any other length.
\<close>

fun unpack2 :: "'a list \<Rightarrow> exn + ('a \<times> 'a)" where
  "unpack2 [a, b] = Inr (a, b)"
| "unpack2 [] = Inl (Exn ValueError ''not enough values to unpack'')"
| "unpack2 [a] = Inl (Exn ValueError ''not enough values to unpack'')"
| "unpack2 (a # b # c # r) = Inl (Exn ValueError ''too many values to unpack'')"

text \<open>
  \<^verbatim>\<open>int(s)\<close> on a string, base ten, as CPython reads it: leading white space, an optional
  sign, decimal digits in which single underscores may separate digits, trailing white space,
  and nothing else; \<^verbatim>\<open>ValueError\<close> otherwise. Among the code points below 256 the
  white space skipped is tab, line feed, vertical tab, form feed, carriage return and space, and
  (turned into a space before the scan) U+0085 and U+00A0. The interpreter limits the number
  of digits: \<open>lim\<close> is \<^verbatim>\<open>sys.get_int_max_str_digits()\<close>, 4300 unless configured and 0 for
  no limit (and in interpreters without the limit); a text of more than 640 digits, underscores
  not counted, with more digits than a positive \<open>lim\<close> raises \<^verbatim>\<open>ValueError\<close> as well.
\<close>

definition py_int_space :: "char \<Rightarrow> bool" where
  "py_int_space c = ((of_char c :: nat) \<in> {9, 10, 11, 12, 13, 32, 133, 160})"

definition is_digit :: "char \<Rightarrow> bool" where
  "is_digit c = (48 \<le> (of_char c :: nat) \<and> (of_char c :: nat) \<le> 57)"

definition digit_val :: "char \<Rightarrow> nat" where
  "digit_val c = (of_char c :: nat) - 48"

text \<open>
  The scan of the digits: a digit first, then digits and underscores with every underscore
  followed by a digit.
\<close>

fun digits_tail :: "string \<Rightarrow> bool" where
  "digits_tail [] = True"
| "digits_tail [c] = is_digit c"
| "digits_tail (c # d # r) =
     (if is_digit c then digits_tail (d # r)
      else c = CHR ''_'' \<and> is_digit d \<and> digits_tail (d # r))"

fun digits_wellformed :: "string \<Rightarrow> bool" where
  "digits_wellformed [] = False"
| "digits_wellformed (c # r) = (is_digit c \<and> digits_tail r)"

definition digits_value :: "string \<Rightarrow> nat" where
  "digits_value ds = foldl (\<lambda>acc c. if c = CHR ''_'' then acc else 10 * acc + digit_val c) 0 ds"

definition digits_count :: "string \<Rightarrow> nat" where
  "digits_count ds = length (filter is_digit ds)"

definition exceeds_limit :: "nat \<Rightarrow> string \<Rightarrow> bool" where
  "exceeds_limit lim ds = (640 < digits_count ds \<and> 0 < lim \<and> lim < digits_count ds)"

definition py_int :: "nat \<Rightarrow> string \<Rightarrow> exn + int" where
  "py_int lim s =
     (let t = dropWhile py_int_space s;
          (sign, u) = (case t of
                         [] \<Rightarrow> (1, t)
                       | c # r \<Rightarrow> if c = CHR ''+'' then (1, r)
                                  else if c = CHR ''-'' then (-1, r) else (1, t));
          body = takeWhile (\<lambda>c. is_digit c \<or> c = CHR ''_'') u;
          rest = dropWhile (\<lambda>c. is_digit c \<or> c = CHR ''_'') u
      in if digits_wellformed body \<and> list_all py_int_space rest
         then if exceeds_limit lim body
              then Inl (Exn ValueError ''Exceeds the limit for integer string conversion'')
              else Inr (sign * int (digits_value body))
         else Inl (Exn ValueError (''invalid literal for int() with base 10: '' @ s)))"

section \<open>The connection string\<close>

text \<open>
  \<^verbatim>\<open>parse_connection_string\<close> returns the master name, the list of sentinel
  \<open>(host, port)\<close> pairs and the db id, all three or none. The body of its \<^verbatim>\<open>try\<close> is
  \<open>parse_body\<close>; the handler turns \<^verbatim>\<open>ValueError\<close>, \<^verbatim>\<open>TypeError\<close> and
  \<^verbatim>\<open>IndexError\<close> into \<^verbatim>\<open>ImproperlyConfigured("Incorrect format '%s'" % constring)\<close>.
  The first argument is the interpreter's digit limit that \<^verbatim>\<open>int\<close> reads.
\<close>

type_synonym endpoint = "string \<times> int"

type_synonym descriptor = "string \<times> endpoint list \<times> string"

text \<open>A list comprehension whose element expression may raise stops at the first exception.\<close>

fun map_exn :: "('a \<Rightarrow> exn + 'b) \<Rightarrow> 'a list \<Rightarrow> exn + 'b list" where
  "map_exn f [] = Inr []"
| "map_exn f (x # xs) =
     (case f x of
        Inl e \<Rightarrow> Inl e
      | Inr y \<Rightarrow> (case map_exn f xs of Inl e \<Rightarrow> Inl e | Inr ys \<Rightarrow> Inr (y # ys)))"

definition host_port :: "nat \<Rightarrow> string list \<Rightarrow> exn + endpoint" where
  "host_port lim server =
     (case unpack2 server of
        Inl e \<Rightarrow> Inl e
      | Inr (host, port) \<Rightarrow> (case py_int lim port of Inl e \<Rightarrow> Inl e | Inr n \<Rightarrow> Inr (host, n)))"

definition parse_body :: "nat \<Rightarrow> string \<Rightarrow> exn + descriptor" where
  "parse_body lim constring =
     (let connection_params = py_split CHR ''/'' constring in
      case py_index connection_params 0 of
        Inl e \<Rightarrow> Inl e
      | Inr master_name \<Rightarrow>
      (case py_index connection_params 1 of
        Inl e \<Rightarrow> Inl e
      | Inr hosts_segment \<Rightarrow>
      (let servers = map (py_split CHR '':'') (py_split CHR '','' hosts_segment) in
       case map_exn (host_port lim) servers of
        Inl e \<Rightarrow> Inl e
      | Inr sentinel_hosts \<Rightarrow>
      (case py_index connection_params 2 of
        Inl e \<Rightarrow> Inl e
      | Inr db \<Rightarrow> Inr (master_name, sentinel_hosts, db)))))"

definition incorrect_format :: "string \<Rightarrow> exn" where
  "incorrect_format constring =
     Exn ImproperlyConfigured (''Incorrect format '' @ [CHR 0x27] @ constring @ [CHR 0x27])"

definition parse_connection_string :: "nat \<Rightarrow> string \<Rightarrow> exn + descriptor" where
  "parse_connection_string lim constring =
     (case parse_body lim constring of
        Inl e \<Rightarrow>
          if caught_by e [ValueError, TypeError, IndexError]
          then Inl (incorrect_format constring)
          else Inl e
      | Inr d \<Rightarrow> Inr d)"

section \<open>The client and its surroundings\<close>

text \<open>
  Option values and the password are Python values of which the module uses the truth value
  and \<^verbatim>\<open>"%s"\<close> formatting only.
\<close>

datatype pyval = PyNone | PyStr string | PyInt int

fun truthy :: "pyval \<Rightarrow> bool" where
  "truthy PyNone = False"
| "truthy (PyStr s) = (s \<noteq> [])"
| "truthy (PyInt n) = (n \<noteq> 0)"

function str_nat :: "nat \<Rightarrow> string" where
  "str_nat n =
     (if n < 10 then [char_of (48 + n)]
      else str_nat (n div 10) @ [char_of (48 + n mod 10)])"
  by pat_completeness auto
termination
  by (relation "measure id") auto

declare str_nat.simps [simp del]

text \<open>
  \<^verbatim>\<open>"%s" % n\<close> for an integer is its decimal text. The ports and numbers formatted
  here are taken to have a text within the interpreter's digit limit, as every port has that
  \<^verbatim>\<open>int\<close> has read from a text.
\<close>

definition str_int :: "int \<Rightarrow> string" where
  "str_int i = (if i < 0 then CHR ''-'' # str_nat (nat (- i)) else str_nat (nat i))"

fun py_str :: "pyval \<Rightarrow> string" where
  "py_str PyNone = ''None''"
| "py_str (PyStr s) = s"
| "py_str (PyInt n) = str_int n"

text \<open>\<^verbatim>\<open>d.get(key, default)\<close>.\<close>

definition dict_get :: "('k \<rightharpoonup> 'v) \<Rightarrow> 'k \<Rightarrow> 'v \<Rightarrow> 'v" where
  "dict_get d k dflt = (case d k of None \<Rightarrow> dflt | Some v \<Rightarrow> v)"

text \<open>
  The collaborators are parameters. A sentinel class gives, for the arguments its constructor
  got and a master name, what \<^verbatim>\<open>discover_master\<close> and \<^verbatim>\<open>discover_slaves\<close> answer or
  raise. The connection factory gives, for a url, the client object it builds or the exception
  it raises. \<open>random_draw\<close> is the number \<^verbatim>\<open>random.choice\<close> draws; the setting is the truth
  value of \<^verbatim>\<open>getattr(settings, "DJANGO_REDIS_CLOSE_CONNECTION", False)\<close>;
  \<open>int_max_str_digits\<close> is the interpreter's digit limit.
\<close>

record sentinel_args =
  sentinels :: "endpoint list"
  socket_timeout :: pyval
  password :: pyval

record sentinel_class =
  discover_master :: "sentinel_args \<Rightarrow> string \<Rightarrow> exn + endpoint"
  discover_slaves :: "sentinel_args \<Rightarrow> string \<Rightarrow> exn + endpoint list"

text \<open>
  Of a client object the module touches only
  \<^verbatim>\<open>connection_pool._available_connections\<close>: one flag per pooled connection, true while
  its socket is open.
\<close>

record redis_client =
  available_connections :: "bool list"

record env =
  Sentinel :: sentinel_class
  connection_factory :: "string \<Rightarrow> exn + redis_client"
  random_draw :: nat
  DJANGO_REDIS_CLOSE_CONNECTION :: bool
  int_max_str_digits :: nat

text \<open>
  What happens outside the client is recorded in a trace: each discovery call with the
  sentinel's constructor arguments and the master name, each call of the factory with its url,
  each \<^verbatim>\<open>disconnect()\<close> with the client object and the position in its pool. Each entry
  into \<^verbatim>\<open>close\<close> is recorded as well, which is what a spy on the method would count.
  The calls of \<^verbatim>\<open>self.log.debug\<close> are left out.
\<close>

datatype event =
    EvDiscoverMaster sentinel_args string
  | EvDiscoverSlaves sentinel_args string
  | EvConnect string
  | EvDisconnect nat nat
  | EvClose

text \<open>
  The state is the instance (\<^verbatim>\<open>_connection_string\<close>, \<^verbatim>\<open>_options\<close>,
  \<^verbatim>\<open>_client_write\<close>, \<^verbatim>\<open>_client_read\<close>) together with the store of client objects
  and the trace. A slot holds \<open>None\<close> or a reference, the position of the object in the store;
  two references are the same object exactly when they are equal.
\<close>

record state =
  connection_string :: string
  options :: "string \<rightharpoonup> pyval"
  client_write :: "nat option"
  client_read :: "nat option"
  store :: "redis_client list"
  trace :: "event list"

text \<open>\<^verbatim>\<open>__init__\<close>, as far as the slots and the connection string go.\<close>

definition init :: "string \<Rightarrow> (string \<rightharpoonup> pyval) \<Rightarrow> state" where
  "init server opts =
     \<lparr>connection_string = server, options = opts,
      client_write = None, client_read = None, store = [], trace = []\<rparr>"

section \<open>connect\<close>

definition call_discover_master ::
  "sentinel_class \<Rightarrow> sentinel_args \<Rightarrow> string \<Rightarrow> state \<Rightarrow> (exn + endpoint) \<times> state" where
  "call_discover_master C sentinel master_name s =
     (discover_master C sentinel master_name,
      s\<lparr>trace := trace s @ [EvDiscoverMaster sentinel master_name]\<rparr>)"

definition call_discover_slaves ::
  "sentinel_class \<Rightarrow> sentinel_args \<Rightarrow> string \<Rightarrow> state \<Rightarrow> (exn + endpoint list) \<times> state" where
  "call_discover_slaves C sentinel master_name s =
     (discover_slaves C sentinel master_name,
      s\<lparr>trace := trace s @ [EvDiscoverSlaves sentinel master_name]\<rparr>)"

text \<open>
  \<^verbatim>\<open>random.choice(seq)\<close> raises \<^verbatim>\<open>IndexError\<close> on an empty sequence and returns the item
  at a position below the length otherwise; the position is the draw reduced modulo the length.
\<close>

definition random_choice :: "nat \<Rightarrow> 'a list \<Rightarrow> exn + 'a" where
  "random_choice draw seq =
     (if seq = [] then Inl (Exn IndexError ''Cannot choose from an empty sequence'')
      else Inr (seq ! (draw mod length seq)))"

text \<open>
  The \<^verbatim>\<open>if write: ... else: try ... except IndexError\<close> block. The \<^verbatim>\<open>try\<close> covers the
  call of \<^verbatim>\<open>discover_slaves\<close> as well as the choice.
\<close>

definition discover ::
  "env \<Rightarrow> sentinel_class \<Rightarrow> sentinel_args \<Rightarrow> string \<Rightarrow> bool \<Rightarrow> state
     \<Rightarrow> (exn + endpoint) \<times> state" where
  "discover env C sentinel master_name write s =
     (if write then call_discover_master C sentinel master_name s
      else
        (case call_discover_slaves C sentinel master_name s of
           (Inl e, s1) \<Rightarrow>
             if caught_by e [IndexError] then call_discover_master C sentinel master_name s1
             else (Inl e, s1)
         | (Inr slaves, s1) \<Rightarrow>
             (case random_choice (random_draw env) slaves of
                Inl e \<Rightarrow>
                  if caught_by e [IndexError]
                  then call_discover_master C sentinel master_name s1
                  else (Inl e, s1)
              | Inr hp \<Rightarrow> (Inr hp, s1))))"

definition make_url :: "pyval \<Rightarrow> string \<Rightarrow> int \<Rightarrow> string \<Rightarrow> string" where
  "make_url pw host port db =
     (if truthy pw
      then ''redis://:'' @ py_str pw @ ''@'' @ host @ '':'' @ str_int port @ ''/'' @ db
      else ''redis://'' @ host @ '':'' @ str_int port @ ''/'' @ db)"

text \<open>\<^verbatim>\<open>self.connection_factory.connect(connection_url)\<close>: a new object in the store.\<close>

definition factory_connect :: "env \<Rightarrow> string \<Rightarrow> state \<Rightarrow> (exn + nat) \<times> state" where
  "factory_connect env url s =
     (case connection_factory env url of
        Inl e \<Rightarrow> (Inl e, s\<lparr>trace := trace s @ [EvConnect url]\<rparr>)
      | Inr obj \<Rightarrow>
          (Inr (length (store s)),
           s\<lparr>store := store s @ [obj], trace := trace s @ [EvConnect url]\<rparr>))"

definition connect ::
  "env \<Rightarrow> bool \<Rightarrow> sentinel_class option \<Rightarrow> state \<Rightarrow> (exn + nat) \<times> state" where
  "connect env write SentinelClass s =
     (let C = (case SentinelClass of None \<Rightarrow> Sentinel env | Some c \<Rightarrow> c) in
      case parse_connection_string (int_max_str_digits env) (connection_string s) of
        Inl e \<Rightarrow> (Inl e, s)
      | Inr (master_name, sentinel_hosts, db) \<Rightarrow>
          (let sentinel_timeout = dict_get (options s) ''SENTINEL_TIMEOUT'' (PyInt 1);
               pw = dict_get (options s) ''PASSWORD'' PyNone;
               sentinel = \<lparr>sentinels = sentinel_hosts,
                           socket_timeout = sentinel_timeout, password = pw\<rparr>
           in case discover env C sentinel master_name write s of
                (Inl e, s1) \<Rightarrow> (Inl e, s1)
              | (Inr (host, port), s1) \<Rightarrow> factory_connect env (make_url pw host port db) s1))"

section \<open>get\_client, close and exception\_check\<close>

text \<open>
  \<^verbatim>\<open>get_client\<close> returns the client, or with \<^verbatim>\<open>show_index\<close> the tuple of the client and
  an index. Its parameter \<^verbatim>\<open>tried\<close> is never read.
\<close>

datatype client_ret = Client nat | ClientIndex nat int

definition ret :: "bool \<Rightarrow> nat \<Rightarrow> client_ret" where
  "ret show_index c = (if show_index then ClientIndex c 0 else Client c)"

definition get_client :: "env \<Rightarrow> bool \<Rightarrow> bool \<Rightarrow> state \<Rightarrow> (exn + client_ret) \<times> state" where
  "get_client env write show_index s =
     (if write then
        (case client_write s of
           None \<Rightarrow>
             (case connect env write None s of
                (Inl e, s1) \<Rightarrow> (Inl e, s1)
              | (Inr c, s1) \<Rightarrow> (Inr (ret show_index c), s1\<lparr>client_write := Some c\<rparr>))
         | Some c \<Rightarrow> (Inr (ret show_index c), s))
      else
        (case client_read s of
           None \<Rightarrow>
             (case connect env write None s of
                (Inl e, s1) \<Rightarrow> (Inl e, s1)
              | (Inr c, s1) \<Rightarrow> (Inr (ret show_index c), s1\<lparr>client_read := Some c\<rparr>))
         | Some c \<Rightarrow> (Inr (ret show_index c), s)))"

text \<open>\<^verbatim>\<open>c.disconnect()\<close> on the pooled connection at position \<open>i\<close> of client object \<open>r\<close>.\<close>

definition disconnect :: "nat \<Rightarrow> state \<Rightarrow> nat \<Rightarrow> state" where
  "disconnect r s i =
     (if r < length (store s) then
        s\<lparr>store := (store s)[r := (store s ! r)
                     \<lparr>available_connections := (available_connections (store s ! r))[i := False]\<rparr>],
          trace := trace s @ [EvDisconnect r i]\<rparr>
      else s)"

text \<open>The loop \<^verbatim>\<open>for c in client.connection_pool._available_connections: c.disconnect()\<close>.\<close>

definition disconnect_all :: "nat \<Rightarrow> state \<Rightarrow> state" where
  "disconnect_all r s =
     (if r < length (store s)
      then foldl (disconnect r) s [0 ..< length (available_connections (store s ! r))]
      else s)"

text \<open>
  \<^verbatim>\<open>close\<close>: everything it does is under the setting. A client object is true, so
  \<^verbatim>\<open>if self._client_read:\<close> asks whether the slot holds one; the read slot is handled
  before the write slot. \<^verbatim>\<open>del\<close> followed by the assignment leaves \<^verbatim>\<open>None\<close>.
\<close>

definition close :: "env \<Rightarrow> state \<Rightarrow> state" where
  "close env s =
     (let s0 = s\<lparr>trace := trace s @ [EvClose]\<rparr> in
      if DJANGO_REDIS_CLOSE_CONNECTION env then
        (let s1 = (case client_read s0 of None \<Rightarrow> s0 | Some r \<Rightarrow> disconnect_all r s0);
             s2 = (case client_write s1 of None \<Rightarrow> s1 | Some w \<Rightarrow> disconnect_all w s1)
         in s2\<lparr>client_write := None, client_read := None\<rparr>)
      else s0)"

text \<open>
  \<^verbatim>\<open>exception_check(func)\<close> returns \<^verbatim>\<open>wrapper\<close>; \<open>func\<close> stands for the wrapped call
  with its arguments applied, run on the state.
\<close>

definition stale_error :: "exn \<Rightarrow> exn" where
  "stale_error e =
     Exn ConnectionResetError (''Error: '' @ exn_str e @ '', closing old connections'')"

definition exception_check ::
  "env \<Rightarrow> (state \<Rightarrow> (exn + 'a) \<times> state) \<Rightarrow> state \<Rightarrow> (exn + 'a) \<times> state" where
  "exception_check env func s =
     (case func s of
        (Inr v, s1) \<Rightarrow> (Inr v, s1)
      | (Inl e, s1) \<Rightarrow>
          if caught_by e [ConnectionError, ReadOnlyError, ConnectionInterrupted]
          then (Inl (stale_error e), close env s1)
          else (Inl e, s1))"

section \<open>Observations used by the properties\<close>

text \<open>The slot \<^verbatim>\<open>get_client\<close> serves for a mode, and the client inside a returned value.\<close>

definition slot :: "bool \<Rightarrow> state \<Rightarrow> nat option" where
  "slot write s = (if write then client_write s else client_read s)"

fun ret_client :: "client_ret \<Rightarrow> nat" where
  "ret_client (Client c) = c"
| "ret_client (ClientIndex c i) = c"

text \<open>The sentinel object and the password \<^verbatim>\<open>connect\<close> builds from the options.\<close>

definition the_password :: "state \<Rightarrow> pyval" where
  "the_password s = dict_get (options s) ''PASSWORD'' PyNone"

definition the_sentinel :: "state \<Rightarrow> endpoint list \<Rightarrow> sentinel_args" where
  "the_sentinel s hosts =
     \<lparr>sentinels = hosts,
      socket_timeout = dict_get (options s) ''SENTINEL_TIMEOUT'' (PyInt 1),
      password = the_password s\<rparr>"

text \<open>The events a call added to the trace, and counts over a trace.\<close>

definition new_events :: "state \<Rightarrow> state \<Rightarrow> event list" where
  "new_events s s1 = drop (length (trace s)) (trace s1)"

fun is_discovery :: "event \<Rightarrow> bool" where
  "is_discovery (EvDiscoverMaster a n) = True"
| "is_discovery (EvDiscoverSlaves a n) = True"
| "is_discovery ev = False"

fun is_slaves_query :: "event \<Rightarrow> bool" where
  "is_slaves_query (EvDiscoverSlaves a n) = True"
| "is_slaves_query ev = False"

fun is_disconnect :: "event \<Rightarrow> bool" where
  "is_disconnect (EvDisconnect r i) = True"
| "is_disconnect ev = False"

definition discovery_calls :: "event list \<Rightarrow> nat" where
  "discovery_calls t = length (filter is_discovery t)"

definition disconnect_calls :: "event list \<Rightarrow> nat" where
  "disconnect_calls t = length (filter is_disconnect t)"

definition close_calls :: "event list \<Rightarrow> nat" where
  "close_calls t = length (filter (\<lambda>ev. ev = EvClose) t)"

text \<open>
  The classes the handler of \<^verbatim>\<open>exception_check\<close> catches: the three it names, the
  builtin subclasses of \<^verbatim>\<open>ConnectionError\<close> written out.
\<close>

definition caught_class :: "exn_class \<Rightarrow> bool" where
  "caught_class c =
     (c = ConnectionError \<or> c = BrokenPipeError \<or> c = ConnectionAbortedError \<or>
      c = ConnectionRefusedError \<or> c = ConnectionResetError \<or>
      c = ReadOnlyError \<or> c = ConnectionInterrupted)"

text \<open>
  The fatal conditions of the specification, in its words: a transport-level error, a
  read-only replica error, an interrupted backend. A transport-level error is a dropped,
  refused or reset connection, as the socket layer or as the store's client reports it, and a
  timeout on a call to the store, which the specification's error taxonomy treats as a
  transport failure.
\<close>

definition transport_level :: "exn_class \<Rightarrow> bool" where
  "transport_level c =
     (c = ConnectionError \<or> c = BrokenPipeError \<or> c = ConnectionAbortedError \<or>
      c = ConnectionRefusedError \<or> c = ConnectionResetError \<or>
      c = RedisConnectionError \<or> c = RedisTimeoutError \<or> c = TimeoutError)"

definition spec_fatal :: "exn_class \<Rightarrow> bool" where
  "spec_fatal c = (transport_level c \<or> c = ReadOnlyError \<or> c = ConnectionInterrupted)"

subsection \<open>The specification's reading of the connection string\<close>

text \<open>
  The conditions under which the specification has the parser fail, in its words: a segment
  is missing, the endpoint list is empty, an endpoint is malformed, a port is not an integer.
  Whether a port text is an integer is what \<^verbatim>\<open>int\<close> says of it under the interpreter's
  digit limit \<open>lim\<close>.
\<close>

definition segments :: "string \<Rightarrow> string list" where
  "segments s = py_split CHR ''/'' s"

definition segment_missing :: "string \<Rightarrow> bool" where
  "segment_missing s = (length (segments s) < 3)"

definition endpoint_texts :: "string \<Rightarrow> string list" where
  "endpoint_texts s = py_split CHR '','' (segments s ! 1)"

definition endpoint_list_empty :: "string \<Rightarrow> bool" where
  "endpoint_list_empty s = (segments s ! 1 = [])"

definition endpoint_malformed :: "string \<Rightarrow> bool" where
  "endpoint_malformed ep = (length (py_split CHR '':'' ep) \<noteq> 2)"

definition port_not_integer :: "nat \<Rightarrow> string \<Rightarrow> bool" where
  "port_not_integer lim ep =
     (case py_split CHR '':'' ep of
        [h, p] \<Rightarrow> isl (py_int lim p)
      | _ \<Rightarrow> False)"

definition rejected :: "nat \<Rightarrow> string \<Rightarrow> bool" where
  "rejected lim s =
     (if segment_missing s then True
      else if endpoint_list_empty s then True
      else list_ex (\<lambda>ep. endpoint_malformed ep \<or> port_not_integer lim ep) (endpoint_texts s))"

text \<open>The descriptor read off a string that is not rejected.\<close>

definition endpoint_of :: "nat \<Rightarrow> string \<Rightarrow> endpoint" where
  "endpoint_of lim ep =
     (case py_split CHR '':'' ep of
        [h, p] \<Rightarrow> (h, (case py_int lim p of Inl e \<Rightarrow> 0 | Inr n \<Rightarrow> n))
      | _ \<Rightarrow> ([], 0))"

definition descriptor_of :: "nat \<Rightarrow> string \<Rightarrow> descriptor" where
  "descriptor_of lim s =
     (segments s ! 0, map (endpoint_of lim) (endpoint_texts s), segments s ! 2)"

text \<open>
  The specification's validity invariant of a descriptor: a non-empty cluster name, at least
  one endpoint, every host non-empty, a non-empty db index.
\<close>

definition descriptor_valid :: "descriptor \<Rightarrow> bool" where
  "descriptor_valid d =
     (case d of (name, eps, db) \<Rightarrow>
        name \<noteq> [] \<and> eps \<noteq> [] \<and> list_all (\<lambda>ep. fst ep \<noteq> []) eps \<and> db \<noteq> [])"

subsection \<open>A concrete scenario\<close>

text \<open>
  The scenario of the specification: the descriptor \<^verbatim>\<open>cluster1/h1:1,h2:2/3\<close>, a monitor that
  answers primary \<open>(h1, 1)\<close> and replicas \<open>[(h3, 3)]\<close>, and a factory whose clients start with
  two open pooled connections.
\<close>

definition scenario_sentinel :: sentinel_class where
  "scenario_sentinel =
     \<lparr>discover_master = (\<lambda>a n. Inr (''h1'', 1)),
      discover_slaves = (\<lambda>a n. Inr [(''h3'', 3)])\<rparr>"

definition scenario_env :: "bool \<Rightarrow> env" where
  "scenario_env eager =
     \<lparr>Sentinel = scenario_sentinel,
      connection_factory = (\<lambda>url. Inr \<lparr>available_connections = [True, True]\<rparr>),
      random_draw = 7,
      DJANGO_REDIS_CLOSE_CONNECTION = eager,
      int_max_str_digits = 4300\<rparr>"

definition scenario_state :: state where
  "scenario_state = init ''cluster1/h1:1,h2:2/3'' Map.empty"

text \<open>A monitor without replicas, one without a primary, and a factory that cannot connect.\<close>

definition no_replica_env :: env where
  "no_replica_env =
     (scenario_env True)\<lparr>Sentinel :=
        scenario_sentinel\<lparr>discover_slaves := (\<lambda>a n. Inr [])\<rparr>\<rparr>"

definition no_master_env :: env where
  "no_master_env =
     (scenario_env True)\<lparr>Sentinel :=
        scenario_sentinel\<lparr>discover_master :=
          (\<lambda>a n. Inl (Exn (OtherException ''MasterNotFoundError'') ''No master found''))\<rparr>\<rparr>"

definition no_connect_env :: env where
  "no_connect_env =
     (scenario_env True)\<lparr>connection_factory :=
        (\<lambda>url. Inl (Exn (RedisConnectionError) ''refused''))\<rparr>"

text \<open>The state after a write and a read request, and operations to wrap.\<close>

definition scenario_cached :: state where
  "scenario_cached =
     snd (get_client (scenario_env True) False False
            (snd (get_client (scenario_env True) True False scenario_state)))"

definition op_raising :: "exn \<Rightarrow> state \<Rightarrow> (exn + nat) \<times> state" where
  "op_raising e s = (Inl e, s)"

definition op_returning :: "nat \<Rightarrow> state \<Rightarrow> (exn + nat) \<times> state" where
  "op_returning v s = (Inr v, s)"

section \<open>Facts about the parts of the client\<close>

lemma foldl_disconnect_fields:
  "client_write (foldl (disconnect r) s js) = client_write s \<and>
   client_read (foldl (disconnect r) s js) = client_read s \<and>
   connection_string (foldl (disconnect r) s js) = connection_string s \<and>
   options (foldl (disconnect r) s js) = options s \<and>
   length (store (foldl (disconnect r) s js)) = length (store s)"
  by (induction js arbitrary: s) (simp_all add: disconnect_def)

lemma foldl_disconnect_trace:
  "r < length (store s) \<Longrightarrow>
   trace (foldl (disconnect r) s js) = trace s @ map (EvDisconnect r) js"
proof (induction js arbitrary: s)
  case Nil
  then show ?case by simp
next
  case (Cons j js)
  have "r < length (store (disconnect r s j))"
    using Cons.prems by (simp add: disconnect_def)
  from Cons.IH [OF this] show ?case
    using Cons.prems by (simp add: disconnect_def)
qed

lemma disconnect_all_fields:
  "client_write (disconnect_all r s) = client_write s \<and>
   client_read (disconnect_all r s) = client_read s \<and>
   connection_string (disconnect_all r s) = connection_string s \<and>
   options (disconnect_all r s) = options s \<and>
   length (store (disconnect_all r s)) = length (store s)"
  by (simp add: disconnect_all_def foldl_disconnect_fields)

lemma disconnect_all_trace:
  "\<exists>js. trace (disconnect_all r s) = trace s @ map (EvDisconnect r) js"
proof (cases "r < length (store s)")
  case True
  then show ?thesis
    by (auto simp add: disconnect_all_def foldl_disconnect_trace)
next
  case False
  then have "trace (disconnect_all r s) = trace s @ map (EvDisconnect r) []"
    by (simp add: disconnect_all_def)
  then show ?thesis by blast
qed

lemma close_calls_append: "close_calls (t @ u) = close_calls t + close_calls u"
  by (simp add: close_calls_def)

lemma close_calls_disconnects: "close_calls (map (EvDisconnect r) js) = 0"
  by (simp add: close_calls_def)

lemma close_calls_disconnect_all:
  "close_calls (trace (disconnect_all r s)) = close_calls (trace s)"
proof -
  obtain js where "trace (disconnect_all r s) = trace s @ map (EvDisconnect r) js"
    using disconnect_all_trace by blast
  then show ?thesis by (simp add: close_calls_append close_calls_disconnects)
qed

lemma close_slots_eager:
  "DJANGO_REDIS_CLOSE_CONNECTION env \<Longrightarrow>
   client_write (close env s) = None \<and> client_read (close env s) = None"
  by (simp add: close_def Let_def)

lemma close_not_eager:
  "\<not> DJANGO_REDIS_CLOSE_CONNECTION env \<Longrightarrow> close env s = s\<lparr>trace := trace s @ [EvClose]\<rparr>"
  by (simp add: close_def Let_def)

lemma close_counted_once: "close_calls (trace (close env s)) = close_calls (trace s) + 1"
  by (simp add: close_def Let_def close_calls_disconnect_all disconnect_all_fields
      close_calls_append split: option.splits) (simp add: close_calls_def)

lemma close_nothing_cached:
  "client_write s = None \<Longrightarrow> client_read s = None \<Longrightarrow>
   close env s = s\<lparr>trace := trace s @ [EvClose]\<rparr>"
  by (simp add: close_def Let_def)

lemma close_fields:
  "connection_string (close env s) = connection_string s \<and> options (close env s) = options s"
  by (simp add: close_def Let_def disconnect_all_fields split: option.splits)

lemma discover_state:
  "discover env C a n w s = (r, s1) \<Longrightarrow>
   \<exists>evs. s1 = s\<lparr>trace := trace s @ evs\<rparr> \<and> evs \<noteq> [] \<and> list_all is_discovery evs"
  by (auto simp add: discover_def call_discover_master_def call_discover_slaves_def
      split: if_splits sum.splits)

lemma factory_connect_cases:
  "factory_connect env url s = (r, s1) \<Longrightarrow>
   (\<exists>e. r = Inl e \<and> connection_factory env url = Inl e \<and>
        s1 = s\<lparr>trace := trace s @ [EvConnect url]\<rparr>) \<or>
   (\<exists>obj. r = Inr (length (store s)) \<and> connection_factory env url = Inr obj \<and>
        s1 = s\<lparr>store := store s @ [obj], trace := trace s @ [EvConnect url]\<rparr>)"
  by (auto simp add: factory_connect_def split: sum.splits)

lemma connect_parsed:
  "parse_connection_string (int_max_str_digits env) (connection_string s) =
     Inr (n, hs, db) \<Longrightarrow>
   connect env w None s =
     (case discover env (Sentinel env) (the_sentinel s hs) n w s of
        (Inl e, s1) \<Rightarrow> (Inl e, s1)
      | (Inr (h, p), s1) \<Rightarrow> factory_connect env (make_url (the_password s) h p db) s1)"
  unfolding connect_def Let_def the_sentinel_def the_password_def by simp

lemma connect_unparsed:
  "parse_connection_string (int_max_str_digits env) (connection_string s) = Inl e \<Longrightarrow>
   connect env w C s = (Inl e, s)"
  by (simp add: connect_def Let_def)

lemma connect_fields:
  "connect env w C s = (r, s1) \<Longrightarrow>
   client_write s1 = client_write s \<and> client_read s1 = client_read s \<and>
   connection_string s1 = connection_string s \<and> options s1 = options s"
  apply (simp add: connect_def Let_def split: sum.splits prod.splits)
  apply (auto dest!: discover_state factory_connect_cases)
  done

lemma connect_failure_store:
  "connect env w C s = (Inl e, s1) \<Longrightarrow> store s1 = store s"
  apply (simp add: connect_def Let_def split: sum.splits prod.splits)
  apply (auto dest!: discover_state factory_connect_cases)
  done

lemma connect_success_store:
  "connect env w C s = (Inr c, s1) \<Longrightarrow>
   c = length (store s) \<and> (\<exists>obj. store s1 = store s @ [obj])"
  apply (simp add: connect_def Let_def split: sum.splits prod.splits)
  apply (auto dest!: discover_state factory_connect_cases)
  done

lemma get_client_empty_slot:
  "slot write s = None \<Longrightarrow>
   get_client env write show_index s =
     (case connect env write None s of
        (Inl e, s1) \<Rightarrow> (Inl e, s1)
      | (Inr c, s1) \<Rightarrow>
          (Inr (ret show_index c),
           if write then s1\<lparr>client_write := Some c\<rparr> else s1\<lparr>client_read := Some c\<rparr>))"
  by (cases "write") (simp_all add: get_client_def slot_def split: sum.splits prod.splits)

lemma get_client_filled_slot:
  "slot write s = Some c \<Longrightarrow> get_client env write show_index s = (Inr (ret show_index c), s)"
  by (simp add: get_client_def slot_def split: if_splits)

lemma caught_classes:
  "caught_by e [ConnectionError, ReadOnlyError, ConnectionInterrupted] = caught_class (exn_cls e)"
  by (cases e; cases "exn_cls e") (auto simp add: caught_by_def caught_class_def)

lemma caught_index_error: "caught_by e [IndexError] = (exn_cls e = IndexError)"
  by (cases e; cases "exn_cls e") (auto simp add: caught_by_def)

lemma discover_write:
  "discover env C a n True s =
     (discover_master C a n, s\<lparr>trace := trace s @ [EvDiscoverMaster a n]\<rparr>)"
  by (simp add: discover_def call_discover_master_def)

lemma discover_read_some:
  "discover_slaves C a n = Inr reps \<Longrightarrow> reps \<noteq> [] \<Longrightarrow>
   discover env C a n False s =
     (Inr (reps ! (random_draw env mod length reps)),
      s\<lparr>trace := trace s @ [EvDiscoverSlaves a n]\<rparr>)"
  by (simp add: discover_def call_discover_slaves_def random_choice_def)

lemma discover_read_none:
  "discover_slaves C a n = Inr [] \<Longrightarrow>
   discover env C a n False s =
     (discover_master C a n,
      s\<lparr>trace := trace s @ [EvDiscoverSlaves a n, EvDiscoverMaster a n]\<rparr>)"
  by (simp add: discover_def call_discover_slaves_def call_discover_master_def
      random_choice_def caught_index_error)

lemma discovery_calls_append:
  "discovery_calls (t @ u) = discovery_calls t + discovery_calls u"
  by (simp add: discovery_calls_def)

lemma discovery_calls_all:
  "list_all is_discovery evs \<Longrightarrow> discovery_calls evs = length evs"
  by (induction evs) (simp_all add: discovery_calls_def)

lemma connect_discovers:
  assumes "parse_connection_string (int_max_str_digits env) (connection_string s) =
      Inr (n, hs, db)"
  shows "discovery_calls (trace s) < discovery_calls (trace (snd (connect env w None s)))"
proof -
  obtain r s1 where d: "discover env (Sentinel env) (the_sentinel s hs) n w s = (r, s1)"
    by (cases "discover env (Sentinel env) (the_sentinel s hs) n w s")
  from discover_state [OF d] obtain evs
    where s1: "s1 = s\<lparr>trace := trace s @ evs\<rparr>" and ne: "evs \<noteq> []"
      and all: "list_all is_discovery evs"
    by blast
  have grow: "discovery_calls (trace s1) = discovery_calls (trace s) + length evs"
    using s1 all by (simp add: discovery_calls_append discovery_calls_all)
  have "discovery_calls (trace s1) \<le> discovery_calls (trace (snd (connect env w None s)))"
    using d
    by (auto simp add: connect_parsed [OF assms] factory_connect_def discovery_calls_append
        split: sum.splits prod.splits)
  with grow ne show ?thesis by (cases evs) simp_all
qed

lemma get_client_discovers:
  assumes "slot w s = None"
    and "parse_connection_string (int_max_str_digits env) (connection_string s) =
      Inr (n, hs, db)"
  shows "discovery_calls (trace s) < discovery_calls (trace (snd (get_client env w sh s)))"
proof -
  have "trace (snd (get_client env w sh s)) = trace (snd (connect env w None s))"
    using assms(1) by (simp add: get_client_empty_slot split: sum.splits prod.splits)
  with connect_discovers [OF assms(2)] show ?thesis by simp
qed

lemma foldl_clear_length:
  "length (foldl (\<lambda>xs j. xs[j := False]) xs js) = length xs"
  by (induction js arbitrary: xs) simp_all

lemma foldl_clear_nth:
  "i < length xs \<Longrightarrow>
   foldl (\<lambda>xs j. xs[j := False]) xs js ! i = (if i \<in> set js then False else xs ! i)"
proof (induction js arbitrary: xs)
  case Nil
  then show ?case by simp
next
  case (Cons j js)
  have "i < length (xs[j := False])" using Cons.prems by simp
  from Cons.IH [OF this] show ?case
    using Cons.prems by (auto simp add: nth_list_update)
qed

lemma foldl_clear_all:
  "foldl (\<lambda>xs j. xs[j := False]) xs [0 ..< length xs] = replicate (length xs) False"
  by (rule nth_equalityI) (simp_all add: foldl_clear_length foldl_clear_nth)

lemma foldl_disconnect_store:
  "r < length (store s) \<Longrightarrow>
   store (foldl (disconnect r) s js) =
     (store s)[r := (store s ! r)\<lparr>available_connections :=
        foldl (\<lambda>xs j. xs[j := False]) (available_connections (store s ! r)) js\<rparr>]"
proof (induction js arbitrary: s)
  case Nil
  then show ?case by simp
next
  case (Cons j js)
  have r: "r < length (store (disconnect r s j))"
    using Cons.prems by (simp add: disconnect_def)
  show ?case
    using Cons.prems by (simp add: Cons.IH [OF r]) (simp add: disconnect_def)
qed

lemma disconnect_all_store:
  "r < length (store s) \<Longrightarrow>
   store (disconnect_all r s) =
     (store s)[r := (store s ! r)\<lparr>available_connections :=
        replicate (length (available_connections (store s ! r))) False\<rparr>]"
  by (simp add: disconnect_all_def foldl_disconnect_store foldl_clear_all)

lemma disconnect_all_dangling:
  "\<not> r < length (store s) \<Longrightarrow> disconnect_all r s = s"
  by (simp add: disconnect_all_def)

lemma disconnect_all_nth:
  "i < length (store s) \<Longrightarrow>
   available_connections (store (disconnect_all r s) ! i) =
     (if i = r then replicate (length (available_connections (store s ! i))) False
      else available_connections (store s ! i))"
  by (cases "r < length (store s)")
     (simp_all add: disconnect_all_store disconnect_all_dangling nth_list_update)

lemma close_eager_store:
  assumes "DJANGO_REDIS_CLOSE_CONNECTION env" and "i < length (store s)"
  shows "available_connections (store (close env s) ! i) =
     (if client_read s = Some i \<or> client_write s = Some i
      then replicate (length (available_connections (store s ! i))) False
      else available_connections (store s ! i))"
  using assms
  by (auto simp add: close_def Let_def disconnect_all_nth disconnect_all_fields
      split: option.splits)

section \<open>Properties of get\_client\<close>

text \<open>
  C10. With \<^verbatim>\<open>show_index=True\<close>, whatever \<^verbatim>\<open>get_client\<close> returns is the pair of the
  client in the slot of the requested mode and the index 0: for the write and for the read
  mode, served from the slot or freshly built.
\<close>

theorem get_client_show_index:
  "(\<forall>v s1. get_client env write True s = (Inr v, s1) \<longrightarrow>
      (\<exists>c. v = ClientIndex c 0 \<and> slot write s1 = Some c)) \<and>
   (\<forall>c. slot write s = Some c \<longrightarrow>
      get_client env write True s = (Inr (ClientIndex c 0), s)) \<and>
   (\<forall>c s1. slot write s = None \<and> connect env write None s = (Inr c, s1) \<longrightarrow>
      fst (get_client env write True s) = Inr (ClientIndex c 0))"
  by (auto simp add: get_client_def slot_def ret_def
      split: option.splits sum.splits prod.splits)

theorem get_client_show_index_witness:
  "fst (get_client (scenario_env True) False True scenario_state) = Inr (ClientIndex 0 0) \<and>
   get_client (scenario_env True) True True scenario_cached =
     (Inr (ClientIndex 0 0), scenario_cached)"
proof -
  have empty: "slot False scenario_state = None" by code_simp
  have fresh: "connect (scenario_env True) False None scenario_state =
      (Inr 0, snd (connect (scenario_env True) False None scenario_state))"
    by (simp add: prod_eq_iff) code_simp
  have cached: "slot True scenario_cached = Some 0" by code_simp
  have a: "fst (get_client (scenario_env True) False True scenario_state) =
      Inr (ClientIndex 0 0)"
    using get_client_show_index [of "scenario_env True" False scenario_state] empty fresh
    by blast
  have b: "get_client (scenario_env True) True True scenario_cached =
      (Inr (ClientIndex 0 0), scenario_cached)"
    using get_client_show_index [of "scenario_env True" True scenario_cached] cached
    by blast
  from a b show ?thesis by simp
qed

text \<open>
  C6. When \<^verbatim>\<open>get_client\<close> has returned a client for a mode, the slot of that mode holds
  that very object, and every later call for the same mode on a state whose slot is unchanged
  (so with no \<^verbatim>\<open>close\<close> in between) returns the same reference and leaves the state as
  it is: the trace gets no event, so there is no discovery and no call of the factory.
\<close>

theorem get_client_cached:
  assumes "get_client env write show_index s = (Inr v, s1)"
  shows "slot write s1 = Some (ret_client v) \<and>
         (\<forall>env2 s2. slot write s2 = slot write s1 \<longrightarrow>
            get_client env2 write show_index s2 = (Inr v, s2)) \<and>
         (\<forall>env2 show2.
            get_client env2 write show2 s1 = (Inr (ret show2 (ret_client v)), s1))"
  using assms
  by (auto simp add: get_client_def slot_def ret_def
      split: option.splits sum.splits prod.splits if_splits)

theorem get_client_cached_witness:
  "get_client no_master_env True False
     (snd (get_client (scenario_env True) True False scenario_state)) =
   (Inr (Client 0), snd (get_client (scenario_env True) True False scenario_state))"
proof -
  have first: "get_client (scenario_env True) True False scenario_state =
      (Inr (Client 0), snd (get_client (scenario_env True) True False scenario_state))"
    by (simp add: prod_eq_iff) code_simp
  from get_client_cached [OF first] show ?thesis by (simp add: ret_def)
qed

text \<open>
  C7. On an empty slot, \<^verbatim>\<open>get_client\<close> fails exactly when \<^verbatim>\<open>connect\<close> fails, with the
  same exception; then both slots and the store of client objects are as before, so nothing
  is cached. \<^verbatim>\<open>connect\<close> fails when the connection string does not parse, when discovery
  raises, and when the factory raises. A client that is returned is in the slot and is an
  object the factory has built.
\<close>

theorem get_client_failure:
  assumes "slot write s = None"
  shows "(\<forall>e s1. connect env write None s = (Inl e, s1) \<longrightarrow>
            get_client env write show_index s = (Inl e, s1) \<and>
            client_write s1 = client_write s \<and> client_read s1 = client_read s \<and>
            store s1 = store s) \<and>
         (\<forall>e s1. get_client env write show_index s = (Inl e, s1) \<longrightarrow>
            connect env write None s = (Inl e, s1)) \<and>
         (\<forall>e. parse_connection_string (int_max_str_digits env) (connection_string s) =
              Inl e \<longrightarrow>
            connect env write None s = (Inl e, s)) \<and>
         (\<forall>n hs db e s1.
            parse_connection_string (int_max_str_digits env) (connection_string s) =
              Inr (n, hs, db) \<and>
            discover env (Sentinel env) (the_sentinel s hs) n write s = (Inl e, s1) \<longrightarrow>
            connect env write None s = (Inl e, s1)) \<and>
         (\<forall>n hs db h p e s1.
            parse_connection_string (int_max_str_digits env) (connection_string s) =
              Inr (n, hs, db) \<and>
            discover env (Sentinel env) (the_sentinel s hs) n write s = (Inr (h, p), s1) \<and>
            connection_factory env (make_url (the_password s) h p db) = Inl e \<longrightarrow>
            fst (connect env write None s) = Inl e) \<and>
         (\<forall>v s1. get_client env write show_index s = (Inr v, s1) \<longrightarrow>
            slot write s1 = Some (ret_client v) \<and> ret_client v < length (store s1))"
proof (intro conjI allI impI)
  fix e s1 assume c: "connect env write None s = (Inl e, s1)"
  show "get_client env write show_index s = (Inl e, s1)"
    using assms c by (simp add: get_client_empty_slot)
  show "client_write s1 = client_write s" using connect_fields [OF c] by simp
  show "client_read s1 = client_read s" using connect_fields [OF c] by simp
  show "store s1 = store s" using connect_failure_store [OF c] .
next
  fix e s1 assume "get_client env write show_index s = (Inl e, s1)"
  then show "connect env write None s = (Inl e, s1)"
    using assms by (auto simp add: get_client_empty_slot split: sum.splits prod.splits)
next
  fix e assume "parse_connection_string (int_max_str_digits env) (connection_string s) = Inl e"
  then show "connect env write None s = (Inl e, s)" by (rule connect_unparsed)
next
  fix n hs db e s1
  assume "parse_connection_string (int_max_str_digits env) (connection_string s) =
            Inr (n, hs, db) \<and>
          discover env (Sentinel env) (the_sentinel s hs) n write s = (Inl e, s1)"
  then show "connect env write None s = (Inl e, s1)" by (simp add: connect_parsed)
next
  fix n hs db h p e s1
  assume "parse_connection_string (int_max_str_digits env) (connection_string s) =
            Inr (n, hs, db) \<and>
          discover env (Sentinel env) (the_sentinel s hs) n write s = (Inr (h, p), s1) \<and>
          connection_factory env (make_url (the_password s) h p db) = Inl e"
  then show "fst (connect env write None s) = Inl e"
    by (simp add: connect_parsed factory_connect_def)
next
  fix v s1 assume g: "get_client env write show_index s = (Inr v, s1)"
  then obtain c s0 where c: "connect env write None s = (Inr c, s0)"
    and v: "v = ret show_index c"
    and s1: "s1 = (if write then s0\<lparr>client_write := Some c\<rparr> else s0\<lparr>client_read := Some c\<rparr>)"
    using assms by (auto simp add: get_client_empty_slot split: sum.splits prod.splits)
  have rc: "ret_client v = c" using v by (simp add: ret_def)
  show "slot write s1 = Some (ret_client v)" using s1 rc by (simp add: slot_def)
  show "ret_client v < length (store s1)"
    using connect_success_store [OF c] s1 rc by auto
qed

theorem get_client_failure_witness:
  "get_client no_master_env True False scenario_state =
     (Inl (Exn (OtherException ''MasterNotFoundError'') ''No master found''),
      snd (connect no_master_env True None scenario_state)) \<and>
   client_write (snd (connect no_master_env True None scenario_state)) = None \<and>
   client_read (snd (connect no_master_env True None scenario_state)) = None \<and>
   store (snd (connect no_master_env True None scenario_state)) = []"
proof -
  have empty: "slot True scenario_state = None" by code_simp
  have fails: "connect no_master_env True None scenario_state =
      (Inl (Exn (OtherException ''MasterNotFoundError'') ''No master found''),
       snd (connect no_master_env True None scenario_state))"
    by (simp add: prod_eq_iff) code_simp
  have before: "client_write scenario_state = None \<and> client_read scenario_state = None \<and>
      store scenario_state = []"
    by (simp add: scenario_state_def init_def)
  have "get_client no_master_env True False scenario_state =
          (Inl (Exn (OtherException ''MasterNotFoundError'') ''No master found''),
           snd (connect no_master_env True None scenario_state)) \<and>
        client_write (snd (connect no_master_env True None scenario_state)) =
          client_write scenario_state \<and>
        client_read (snd (connect no_master_env True None scenario_state)) =
          client_read scenario_state \<and>
        store (snd (connect no_master_env True None scenario_state)) = store scenario_state"
    using get_client_failure [OF empty, of no_master_env False] fails by blast
  with before show ?thesis by simp
qed

section \<open>Properties of exception\_check and close\<close>

text \<open>
  C2, as the code has it. For a wrapped operation that raises an exception of the builtin
  \<^verbatim>\<open>ConnectionError\<close> or a subclass of it, of \<^verbatim>\<open>ReadOnlyError\<close> or of
  \<^verbatim>\<open>ConnectionInterrupted\<close>, the wrapper calls \<^verbatim>\<open>close\<close> once on the state the
  operation left (the count of \<^verbatim>\<open>close\<close> calls grows by one) and raises
  \<^verbatim>\<open>ConnectionResetError\<close>. An exception of any other class comes out unchanged with the
  state untouched, and its class is not \<^verbatim>\<open>ConnectionResetError\<close>, so the two cases can be
  told apart. A normal result is returned unchanged. Every class the wrapper catches is one of
  the specification's fatal conditions; the fatal conditions it does not catch are exactly the
  connection error and the timeout of the store's client and the builtin timeout.
\<close>

theorem exception_check_cases:
  "(\<forall>e s1. func s = (Inl e, s1) \<and> caught_class (exn_cls e) \<longrightarrow>
      exception_check env func s = (Inl (stale_error e), close env s1) \<and>
      close_calls (trace (close env s1)) = close_calls (trace s1) + 1 \<and>
      exn_cls (stale_error e) = ConnectionResetError) \<and>
   (\<forall>e s1. func s = (Inl e, s1) \<and> \<not> caught_class (exn_cls e) \<longrightarrow>
      exception_check env func s = (Inl e, s1) \<and> exn_cls e \<noteq> ConnectionResetError) \<and>
   (\<forall>v s1. func s = (Inr v, s1) \<longrightarrow> exception_check env func s = (Inr v, s1)) \<and>
   (\<forall>c. caught_class c \<longrightarrow> spec_fatal c) \<and>
   (\<forall>c. (spec_fatal c \<and> \<not> caught_class c) =
      (c = RedisConnectionError \<or> c = RedisTimeoutError \<or> c = TimeoutError))"
proof (intro conjI)
  show "\<forall>e s1. func s = (Inl e, s1) \<and> caught_class (exn_cls e) \<longrightarrow>
      exception_check env func s = (Inl (stale_error e), close env s1) \<and>
      close_calls (trace (close env s1)) = close_calls (trace s1) + 1 \<and>
      exn_cls (stale_error e) = ConnectionResetError"
    by (simp add: exception_check_def caught_classes close_counted_once stale_error_def)
  show "\<forall>e s1. func s = (Inl e, s1) \<and> \<not> caught_class (exn_cls e) \<longrightarrow>
      exception_check env func s = (Inl e, s1) \<and> exn_cls e \<noteq> ConnectionResetError"
    by (auto simp add: exception_check_def caught_classes caught_class_def)
  show "\<forall>v s1. func s = (Inr v, s1) \<longrightarrow> exception_check env func s = (Inr v, s1)"
    by (simp add: exception_check_def)
  show "\<forall>c. caught_class c \<longrightarrow> spec_fatal c"
    by (auto simp add: caught_class_def spec_fatal_def transport_level_def)
  show "\<forall>c. (spec_fatal c \<and> \<not> caught_class c) =
      (c = RedisConnectionError \<or> c = RedisTimeoutError \<or> c = TimeoutError)"
    by (auto simp add: caught_class_def spec_fatal_def transport_level_def)
qed

theorem exception_check_cases_witness:
  "exception_check (scenario_env True) (op_raising (Exn ReadOnlyError ''ro'')) scenario_cached =
     (Inl (Exn ConnectionResetError ''Error: ro, closing old connections''),
      close (scenario_env True) scenario_cached) \<and>
   close_calls (trace (close (scenario_env True) scenario_cached)) = 1 \<and>
   exception_check (scenario_env True) (op_raising (Exn ValueError ''v'')) scenario_cached =
     (Inl (Exn ValueError ''v''), scenario_cached) \<and>
   exception_check (scenario_env True) (op_returning 5) scenario_cached =
     (Inr 5, scenario_cached) \<and>
   spec_fatal BrokenPipeError"
proof -
  have ro: "op_raising (Exn ReadOnlyError ''ro'') scenario_cached =
        (Inl (Exn ReadOnlyError ''ro''), scenario_cached) \<and>
      caught_class (exn_cls (Exn ReadOnlyError ''ro''))"
    by (simp add: op_raising_def caught_class_def)
  have ve: "op_raising (Exn ValueError ''v'') scenario_cached =
        (Inl (Exn ValueError ''v''), scenario_cached) \<and>
      \<not> caught_class (exn_cls (Exn ValueError ''v''))"
    by (simp add: op_raising_def caught_class_def)
  have ok: "op_returning 5 scenario_cached = (Inr 5, scenario_cached)"
    by (simp add: op_returning_def)
  have bp: "caught_class BrokenPipeError" by (simp add: caught_class_def)
  have zero: "close_calls (trace scenario_cached) = 0" by code_simp
  have a: "exception_check (scenario_env True) (op_raising (Exn ReadOnlyError ''ro''))
        scenario_cached =
      (Inl (stale_error (Exn ReadOnlyError ''ro'')), close (scenario_env True) scenario_cached) \<and>
      close_calls (trace (close (scenario_env True) scenario_cached)) =
        close_calls (trace scenario_cached) + 1"
    using exception_check_cases
      [of "op_raising (Exn ReadOnlyError ''ro'')" scenario_cached "scenario_env True"] ro
    by blast
  have b: "exception_check (scenario_env True) (op_raising (Exn ValueError ''v''))
        scenario_cached = (Inl (Exn ValueError ''v''), scenario_cached)"
    using exception_check_cases
      [of "op_raising (Exn ValueError ''v'')" scenario_cached "scenario_env True"] ve
    by blast
  have c: "exception_check (scenario_env True) (op_returning 5) scenario_cached =
      (Inr 5, scenario_cached)"
    using exception_check_cases [of "op_returning 5" scenario_cached "scenario_env True"] ok
    by blast
  have d: "spec_fatal BrokenPipeError"
    using exception_check_cases [of "op_returning 5" scenario_cached "scenario_env True"] bp
    by blast
  from a b c d zero show ?thesis by (simp add: stale_error_def)
qed

text \<open>
  A transport-level error that the store's client reports passes through the wrapper as it
  is, and the state, with both cached clients, is as the operation left it: no reset.
\<close>

theorem exception_check_redis_error_counterexample:
  "spec_fatal RedisConnectionError \<and>
   exception_check (scenario_env True)
       (op_raising (Exn RedisConnectionError ''Connection refused'')) scenario_cached =
     (Inl (Exn RedisConnectionError ''Connection refused''), scenario_cached) \<and>
   client_write scenario_cached = Some 0 \<and> client_read scenario_cached = Some 1"
proof -
  have a: "spec_fatal RedisConnectionError"
    by (simp add: spec_fatal_def transport_level_def)
  have b: "exception_check (scenario_env True)
       (op_raising (Exn RedisConnectionError ''Connection refused'')) scenario_cached =
     (Inl (Exn RedisConnectionError ''Connection refused''), scenario_cached)"
    by (simp add: exception_check_def op_raising_def caught_by_def)
  have c: "client_write scenario_cached = Some 0 \<and> client_read scenario_cached = Some 1"
    by code_simp
  from a b c show ?thesis by simp
qed

text \<open>
  With the setting on, \<^verbatim>\<open>close\<close> disconnects every pooled connection of the clients in
  the two slots, leaves the other client objects as they are and empties both slots, so that
  the next \<^verbatim>\<open>get_client\<close> of either mode, on a connection string that parses, makes at
  least one new discovery call. A second \<^verbatim>\<open>close\<close> right after a first disconnects nothing
  and changes neither slots nor store.
\<close>

lemma close_setting_on:
  assumes "DJANGO_REDIS_CLOSE_CONNECTION env"
  shows "client_write (close env s) = None \<and> client_read (close env s) = None \<and>
      (\<forall>i. i < length (store s) \<longrightarrow>
         available_connections (store (close env s) ! i) =
           (if client_read s = Some i \<or> client_write s = Some i
            then replicate (length (available_connections (store s ! i))) False
            else available_connections (store s ! i))) \<and>
      (\<forall>env2 w sh n hs db.
         parse_connection_string (int_max_str_digits env2) (connection_string s) =
           Inr (n, hs, db) \<longrightarrow>
         discovery_calls (trace (close env s)) <
           discovery_calls (trace (snd (get_client env2 w sh (close env s)))))"
proof (intro conjI impI allI)
  show "client_write (close env s) = None" using close_slots_eager [OF assms] by simp
  show "client_read (close env s) = None" using close_slots_eager [OF assms] by simp
next
  fix i
  assume "i < length (store s)"
  with assms show "available_connections (store (close env s) ! i) =
      (if client_read s = Some i \<or> client_write s = Some i
       then replicate (length (available_connections (store s ! i))) False
       else available_connections (store s ! i))"
    by (rule close_eager_store)
next
  fix env2 :: env and w sh n hs db
  assume parsed: "parse_connection_string (int_max_str_digits env2) (connection_string s) =
      Inr (n, hs, db)"
  have empty: "slot w (close env s) = None"
    using close_slots_eager [OF assms, of s] by (simp add: slot_def)
  have "parse_connection_string (int_max_str_digits env2) (connection_string (close env s)) =
      Inr (n, hs, db)"
    using parsed by (simp add: close_fields)
  from get_client_discovers [OF empty this]
  show "discovery_calls (trace (close env s)) <
      discovery_calls (trace (snd (get_client env2 w sh (close env s))))" .
qed

lemma close_twice:
  "close env (close env s) = (close env s)\<lparr>trace := trace (close env s) @ [EvClose]\<rparr>"
proof (cases "DJANGO_REDIS_CLOSE_CONNECTION env")
  case True
  then show ?thesis using close_slots_eager [OF True, of s] by (simp add: close_nothing_cached)
next
  case False
  then show ?thesis by (simp add: close_not_eager)
qed

text \<open>
  C1. The claim fails on the code with the setting off, which is its default. On the state
  that holds a write and a read client, \<^verbatim>\<open>close\<close> leaves both in their slots; the next
  read request is served the client cached before and makes no discovery call; and the reset
  that \<^verbatim>\<open>exception_check\<close> runs after an interrupted backend leaves the stale clients
  cached as well. The comment at that call (closing old connections to reinitialize client)
  and the docstring of \<^verbatim>\<open>close\<close> say what the claim says, and with the setting on
  \<^verbatim>\<open>close\<close> does it.
\<close>

theorem close_setting_off_keeps_stale_clients:
  "\<not> DJANGO_REDIS_CLOSE_CONNECTION (scenario_env False) \<and>
   client_write (close (scenario_env False) scenario_cached) = Some 0 \<and>
   client_read (close (scenario_env False) scenario_cached) = Some 1 \<and>
   fst (get_client (scenario_env False) False False
          (close (scenario_env False) scenario_cached)) = Inr (Client 1) \<and>
   discovery_calls (trace (snd (get_client (scenario_env False) False False
          (close (scenario_env False) scenario_cached)))) =
     discovery_calls (trace scenario_cached) \<and>
   fst (exception_check (scenario_env False)
          (op_raising (Exn ConnectionInterrupted ''lost'')) scenario_cached) =
     Inl (Exn ConnectionResetError ''Error: lost, closing old connections'') \<and>
   client_read (snd (exception_check (scenario_env False)
          (op_raising (Exn ConnectionInterrupted ''lost'')) scenario_cached)) = Some 1 \<and>
   client_write (snd (exception_check (scenario_env False)
          (op_raising (Exn ConnectionInterrupted ''lost'')) scenario_cached)) = Some 0"
  by code_simp

section \<open>Properties of connect\<close>

lemma get_client_built:
  assumes "slot w s = None"
    and "parse_connection_string (int_max_str_digits env) (connection_string s) =
      Inr (n, hs, db)"
    and "discover env (Sentinel env) (the_sentinel s hs) n w s =
           (Inr (h, p), s\<lparr>trace := trace s @ evs\<rparr>)"
  shows "new_events s (snd (get_client env w sh s)) =
           evs @ [EvConnect (make_url (the_password s) h p db)] \<and>
         (\<forall>e. connection_factory env (make_url (the_password s) h p db) = Inl e \<longrightarrow>
            fst (get_client env w sh s) = Inl e) \<and>
         (\<forall>obj. connection_factory env (make_url (the_password s) h p db) = Inr obj \<longrightarrow>
            fst (get_client env w sh s) = Inr (ret sh (length (store s))) \<and>
            slot w (snd (get_client env w sh s)) = Some (length (store s)) \<and>
            store (snd (get_client env w sh s)) = store s @ [obj])"
  using assms
  by (cases "connection_factory env (make_url (the_password s) h p db)"; cases "w")
     (simp_all add: get_client_empty_slot connect_parsed factory_connect_def
       new_events_def slot_def)

lemma get_client_undiscovered:
  assumes "slot w s = None"
    and "parse_connection_string (int_max_str_digits env) (connection_string s) =
      Inr (n, hs, db)"
    and "discover env (Sentinel env) (the_sentinel s hs) n w s = (Inl e, s1)"
  shows "get_client env w sh s = (Inl e, s1)"
  using assms by (simp add: get_client_empty_slot connect_parsed)

text \<open>
  C4. A write request on an empty write slot, with a connection string that parses, asks the
  monitor for the master of the cluster name once and never for the slaves. When that call
  raises, the same exception comes out of \<^verbatim>\<open>get_client\<close> and nothing else is called;
  when it answers, the only further call is the factory's, with the url of the answered
  endpoint.
\<close>

theorem write_discovers_master_only:
  assumes "parse_connection_string (int_max_str_digits env) (connection_string s) =
      Inr (n, hs, db)"
    and "client_write s = None"
  shows "(\<forall>e. discover_master (Sentinel env) (the_sentinel s hs) n = Inl e \<longrightarrow>
            get_client env True sh s =
              (Inl e, s\<lparr>trace := trace s @ [EvDiscoverMaster (the_sentinel s hs) n]\<rparr>)) \<and>
         (\<forall>h p. discover_master (Sentinel env) (the_sentinel s hs) n = Inr (h, p) \<longrightarrow>
            new_events s (snd (get_client env True sh s)) =
              [EvDiscoverMaster (the_sentinel s hs) n,
               EvConnect (make_url (the_password s) h p db)]) \<and>
         filter is_discovery (new_events s (snd (get_client env True sh s))) =
           [EvDiscoverMaster (the_sentinel s hs) n] \<and>
         \<not> list_ex is_slaves_query (new_events s (snd (get_client env True sh s)))"
proof -
  have empty: "slot True s = None" using assms(2) by (simp add: slot_def)
  let ?q = "EvDiscoverMaster (the_sentinel s hs) n"
  have d: "discover env (Sentinel env) (the_sentinel s hs) n True s =
      (discover_master (Sentinel env) (the_sentinel s hs) n, s\<lparr>trace := trace s @ [?q]\<rparr>)"
    by (rule discover_write)
  show ?thesis
  proof (cases "discover_master (Sentinel env) (the_sentinel s hs) n")
    case (Inl e)
    have g: "get_client env True sh s = (Inl e, s\<lparr>trace := trace s @ [?q]\<rparr>)"
      using get_client_undiscovered [OF empty assms(1)] d Inl by simp
    then show ?thesis using Inl by (simp add: new_events_def)
  next
    case (Inr hp)
    obtain h p where hp: "hp = (h, p)" by (cases hp)
    have "discover env (Sentinel env) (the_sentinel s hs) n True s =
        (Inr (h, p), s\<lparr>trace := trace s @ [?q]\<rparr>)"
      using d Inr hp by simp
    from get_client_built [OF empty assms(1) this, of sh]
    have "new_events s (snd (get_client env True sh s)) =
        [?q, EvConnect (make_url (the_password s) h p db)]"
      by simp
    then show ?thesis using Inr hp by simp
  qed
qed

theorem write_discovers_master_only_witness:
  "new_events scenario_state (snd (get_client (scenario_env True) True False scenario_state)) =
     [EvDiscoverMaster
        \<lparr>sentinels = [(''h1'', 1), (''h2'', 2)], socket_timeout = PyInt 1, password = PyNone\<rparr>
        ''cluster1'',
      EvConnect ''redis://h1:1/3''] \<and>
   fst (get_client no_master_env True False scenario_state) =
     Inl (Exn (OtherException ''MasterNotFoundError'') ''No master found'')"
proof -
  have parsed: "parse_connection_string (int_max_str_digits (scenario_env True))
        (connection_string scenario_state) =
      Inr (''cluster1'', [(''h1'', 1), (''h2'', 2)], ''3'')"
    by code_simp
  have parsed2: "parse_connection_string (int_max_str_digits no_master_env)
        (connection_string scenario_state) =
      Inr (''cluster1'', [(''h1'', 1), (''h2'', 2)], ''3'')"
    by code_simp
  have empty: "client_write scenario_state = None" by code_simp
  have args: "the_sentinel scenario_state [(''h1'', 1), (''h2'', 2)] =
      \<lparr>sentinels = [(''h1'', 1), (''h2'', 2)], socket_timeout = PyInt 1, password = PyNone\<rparr>"
    by (simp add: the_sentinel_def the_password_def scenario_state_def init_def dict_get_def)
  have url: "make_url (the_password scenario_state) ''h1'' 1 ''3'' = ''redis://h1:1/3''"
    by code_simp
  have answer: "discover_master (Sentinel (scenario_env True))
      (the_sentinel scenario_state [(''h1'', 1), (''h2'', 2)]) ''cluster1'' = Inr (''h1'', 1)"
    by (simp add: scenario_env_def scenario_sentinel_def)
  have fails: "discover_master (Sentinel no_master_env)
      (the_sentinel scenario_state [(''h1'', 1), (''h2'', 2)]) ''cluster1'' =
      Inl (Exn (OtherException ''MasterNotFoundError'') ''No master found'')"
    by (simp add: no_master_env_def scenario_env_def scenario_sentinel_def)
  have a: "new_events scenario_state
        (snd (get_client (scenario_env True) True False scenario_state)) =
      [EvDiscoverMaster (the_sentinel scenario_state [(''h1'', 1), (''h2'', 2)]) ''cluster1'',
       EvConnect (make_url (the_password scenario_state) ''h1'' 1 ''3'')]"
    using write_discovers_master_only [OF parsed empty, of False] answer
    by blast
  have b: "get_client no_master_env True False scenario_state =
      (Inl (Exn (OtherException ''MasterNotFoundError'') ''No master found''),
       scenario_state\<lparr>trace := trace scenario_state @
         [EvDiscoverMaster (the_sentinel scenario_state [(''h1'', 1), (''h2'', 2)])
            ''cluster1'']\<rparr>)"
    using write_discovers_master_only [OF parsed2 empty, of False] fails
    by blast
  from a b args url show ?thesis by simp
qed

text \<open>
  C3. A read request on an empty read slot, with a connection string that parses and a
  monitor that answers the list of slaves: when the list is not empty, the endpoint is the
  member of the list at the drawn position, the only calls are the slaves query and the
  factory with the url of that endpoint, and the client the factory builds is returned and
  put in the read slot; every member of the list is the one taken for some draw. When the list
  is empty, the master is asked next and the client is built from its endpoint; when the
  master query raises, so does the read.
\<close>

theorem read_uses_replica_or_master:
  assumes "parse_connection_string (int_max_str_digits env) (connection_string s) =
      Inr (n, hs, db)"
    and "client_read s = None"
    and "discover_slaves (Sentinel env) (the_sentinel s hs) n = Inr reps"
  shows "(reps \<noteq> [] \<longrightarrow>
            (\<exists>h p. (h, p) \<in> set reps \<and>
               (h, p) = reps ! (random_draw env mod length reps) \<and>
               new_events s (snd (get_client env False sh s)) =
                 [EvDiscoverSlaves (the_sentinel s hs) n,
                  EvConnect (make_url (the_password s) h p db)] \<and>
               (\<forall>obj. connection_factory env (make_url (the_password s) h p db) = Inr obj \<longrightarrow>
                  fst (get_client env False sh s) = Inr (ret sh (length (store s))) \<and>
                  client_read (snd (get_client env False sh s)) = Some (length (store s)) \<and>
                  store (snd (get_client env False sh s)) = store s @ [obj]))) \<and>
         (\<forall>i. i < length reps \<longrightarrow>
            new_events s (snd (get_client (env\<lparr>random_draw := i\<rparr>) False sh s)) =
              [EvDiscoverSlaves (the_sentinel s hs) n,
               EvConnect (make_url (the_password s) (fst (reps ! i)) (snd (reps ! i)) db)]) \<and>
         (reps = [] \<longrightarrow>
            (\<forall>h p. discover_master (Sentinel env) (the_sentinel s hs) n = Inr (h, p) \<longrightarrow>
               new_events s (snd (get_client env False sh s)) =
                 [EvDiscoverSlaves (the_sentinel s hs) n,
                  EvDiscoverMaster (the_sentinel s hs) n,
                  EvConnect (make_url (the_password s) h p db)] \<and>
               (\<forall>obj. connection_factory env (make_url (the_password s) h p db) = Inr obj \<longrightarrow>
                  fst (get_client env False sh s) = Inr (ret sh (length (store s))) \<and>
                  client_read (snd (get_client env False sh s)) = Some (length (store s)) \<and>
                  store (snd (get_client env False sh s)) = store s @ [obj])) \<and>
            (\<forall>e. discover_master (Sentinel env) (the_sentinel s hs) n = Inl e \<longrightarrow>
               fst (get_client env False sh s) = Inl e))"
proof (intro conjI impI allI)
  have empty: "slot False s = None" using assms(2) by (simp add: slot_def)
  let ?q = "EvDiscoverSlaves (the_sentinel s hs) n"
  let ?m = "EvDiscoverMaster (the_sentinel s hs) n"
  {
    assume ne: "reps \<noteq> []"
    obtain h p where hp: "reps ! (random_draw env mod length reps) = (h, p)"
      by (cases "reps ! (random_draw env mod length reps)")
    have mem: "(h, p) \<in> set reps"
      using ne hp by (metis length_greater_0_conv mod_less_divisor nth_mem)
    have "discover env (Sentinel env) (the_sentinel s hs) n False s =
        (Inr (h, p), s\<lparr>trace := trace s @ [?q]\<rparr>)"
      using discover_read_some [OF assms(3) ne, of env s] hp by simp
    from get_client_built [OF empty assms(1) this, of sh] mem hp
    show "\<exists>h p. (h, p) \<in> set reps \<and>
               (h, p) = reps ! (random_draw env mod length reps) \<and>
               new_events s (snd (get_client env False sh s)) =
                 [EvDiscoverSlaves (the_sentinel s hs) n,
                  EvConnect (make_url (the_password s) h p db)] \<and>
               (\<forall>obj. connection_factory env (make_url (the_password s) h p db) = Inr obj \<longrightarrow>
                  fst (get_client env False sh s) = Inr (ret sh (length (store s))) \<and>
                  client_read (snd (get_client env False sh s)) = Some (length (store s)) \<and>
                  store (snd (get_client env False sh s)) = store s @ [obj])"
      by (auto simp add: slot_def)
  }
  {
    fix i assume i: "i < length reps"
    then have ne: "reps \<noteq> []" by auto
    let ?env = "env\<lparr>random_draw := i\<rparr>"
    have sl: "discover_slaves (Sentinel ?env) (the_sentinel s hs) n = Inr reps"
      using assms(3) by simp
    have pe: "parse_connection_string (int_max_str_digits ?env) (connection_string s) =
        Inr (n, hs, db)"
      using assms(1) by simp
    have "discover ?env (Sentinel ?env) (the_sentinel s hs) n False s =
        (Inr (fst (reps ! i), snd (reps ! i)), s\<lparr>trace := trace s @ [?q]\<rparr>)"
      using discover_read_some [OF sl ne, of ?env s] i by simp
    from get_client_built [OF empty pe this, of sh]
    show "new_events s (snd (get_client ?env False sh s)) =
        [?q, EvConnect (make_url (the_password s) (fst (reps ! i)) (snd (reps ! i)) db)]"
      by simp
  }
  {
    fix h p
    assume none: "reps = []"
      and m: "discover_master (Sentinel env) (the_sentinel s hs) n = Inr (h, p)"
    have sl: "discover_slaves (Sentinel env) (the_sentinel s hs) n = Inr []"
      using assms(3) none by simp
    have d: "discover env (Sentinel env) (the_sentinel s hs) n False s =
        (Inr (h, p), s\<lparr>trace := trace s @ [?q, ?m]\<rparr>)"
      using discover_read_none [OF sl, of env s] m by simp
    from get_client_built [OF empty assms(1) d, of sh]
    show "new_events s (snd (get_client env False sh s)) =
        [?q, ?m, EvConnect (make_url (the_password s) h p db)]"
      by simp
    fix obj
    assume f: "connection_factory env (make_url (the_password s) h p db) = Inr obj"
    from get_client_built [OF empty assms(1) d, of sh] f
    show "fst (get_client env False sh s) = Inr (ret sh (length (store s)))"
      and "client_read (snd (get_client env False sh s)) = Some (length (store s))"
      and "store (snd (get_client env False sh s)) = store s @ [obj]"
      by (simp_all add: slot_def)
  }
  {
    fix e
    assume none: "reps = []"
      and m: "discover_master (Sentinel env) (the_sentinel s hs) n = Inl e"
    have sl: "discover_slaves (Sentinel env) (the_sentinel s hs) n = Inr []"
      using assms(3) none by simp
    have "discover env (Sentinel env) (the_sentinel s hs) n False s =
        (Inl e, s\<lparr>trace := trace s @ [?q, ?m]\<rparr>)"
      using discover_read_none [OF sl, of env s] m by simp
    from get_client_undiscovered [OF empty assms(1) this, of sh]
    show "fst (get_client env False sh s) = Inl e" by simp
  }
qed

theorem read_uses_replica_or_master_witness:
  "new_events scenario_state (snd (get_client (scenario_env True) False False scenario_state)) =
     [EvDiscoverSlaves
        \<lparr>sentinels = [(''h1'', 1), (''h2'', 2)], socket_timeout = PyInt 1, password = PyNone\<rparr>
        ''cluster1'',
      EvConnect ''redis://h3:3/3''] \<and>
   new_events scenario_state (snd (get_client no_replica_env False False scenario_state)) =
     [EvDiscoverSlaves
        \<lparr>sentinels = [(''h1'', 1), (''h2'', 2)], socket_timeout = PyInt 1, password = PyNone\<rparr>
        ''cluster1'',
      EvDiscoverMaster
        \<lparr>sentinels = [(''h1'', 1), (''h2'', 2)], socket_timeout = PyInt 1, password = PyNone\<rparr>
        ''cluster1'',
      EvConnect ''redis://h1:1/3'']"
proof -
  have parsed: "parse_connection_string (int_max_str_digits (scenario_env True))
        (connection_string scenario_state) =
      Inr (''cluster1'', [(''h1'', 1), (''h2'', 2)], ''3'')"
    by code_simp
  have parsed2: "parse_connection_string (int_max_str_digits no_replica_env)
        (connection_string scenario_state) =
      Inr (''cluster1'', [(''h1'', 1), (''h2'', 2)], ''3'')"
    by code_simp
  have empty: "client_read scenario_state = None" by code_simp
  have args: "the_sentinel scenario_state [(''h1'', 1), (''h2'', 2)] =
      \<lparr>sentinels = [(''h1'', 1), (''h2'', 2)], socket_timeout = PyInt 1, password = PyNone\<rparr>"
    by (simp add: the_sentinel_def the_password_def scenario_state_def init_def dict_get_def)
  have url3: "make_url (the_password scenario_state) ''h3'' 3 ''3'' = ''redis://h3:3/3''"
    by code_simp
  have url1: "make_url (the_password scenario_state) ''h1'' 1 ''3'' = ''redis://h1:1/3''"
    by code_simp
  have some: "discover_slaves (Sentinel (scenario_env True))
      (the_sentinel scenario_state [(''h1'', 1), (''h2'', 2)]) ''cluster1'' = Inr [(''h3'', 3)]"
    by (simp add: scenario_env_def scenario_sentinel_def)
  have none: "discover_slaves (Sentinel no_replica_env)
      (the_sentinel scenario_state [(''h1'', 1), (''h2'', 2)]) ''cluster1'' = Inr []"
    by (simp add: no_replica_env_def scenario_env_def scenario_sentinel_def)
  have master: "discover_master (Sentinel no_replica_env)
      (the_sentinel scenario_state [(''h1'', 1), (''h2'', 2)]) ''cluster1'' = Inr (''h1'', 1)"
    by (simp add: no_replica_env_def scenario_env_def scenario_sentinel_def)
  obtain h p where mem: "(h, p) \<in> set [(''h3'', 3::int)]"
    and ev: "new_events scenario_state
        (snd (get_client (scenario_env True) False False scenario_state)) =
      [EvDiscoverSlaves (the_sentinel scenario_state [(''h1'', 1), (''h2'', 2)]) ''cluster1'',
       EvConnect (make_url (the_password scenario_state) h p ''3'')]"
    using read_uses_replica_or_master [OF parsed empty some, of False] by blast
  from mem have hp: "h = ''h3'' \<and> p = 3" by simp
  have b: "new_events scenario_state
        (snd (get_client no_replica_env False False scenario_state)) =
      [EvDiscoverSlaves (the_sentinel scenario_state [(''h1'', 1), (''h2'', 2)]) ''cluster1'',
       EvDiscoverMaster (the_sentinel scenario_state [(''h1'', 1), (''h2'', 2)]) ''cluster1'',
       EvConnect (make_url (the_password scenario_state) ''h1'' 1 ''3'')]"
    using read_uses_replica_or_master [OF parsed2 empty none, of False] master by blast
  from ev hp b args url1 url3 show ?thesis by simp
qed

section \<open>Facts about the parser\<close>

lemma py_split_nonempty: "py_split c s \<noteq> []"
  by (induction s) (auto split: list.splits)

lemma py_split_append_sep: "py_split c (a @ c # b) = py_split c a @ py_split c b"
proof (induction a)
  case Nil
  then show ?case by simp
next
  case (Cons x a)
  then show ?case
    using py_split_nonempty [of c a] by (auto split: list.splits)
qed

lemma py_split_no_sep: "c \<notin> set a \<Longrightarrow> py_split c a = [a]"
  by (induction a) auto

lemma py_int_error: "py_int lim p = Inl e \<Longrightarrow> exn_cls e = ValueError"
  by (auto simp add: py_int_def Let_def split: prod.splits if_splits)

lemma unpack2_error: "unpack2 xs = Inl e \<Longrightarrow> exn_cls e = ValueError"
  by (induction xs rule: unpack2.induct) auto

lemma unpack2_two: "unpack2 xs = Inr (a, b) \<longleftrightarrow> xs = [a, b]"
  by (induction xs rule: unpack2.induct) auto

lemma unpack2_bad: "length xs \<noteq> 2 \<Longrightarrow> isl (unpack2 xs)"
  by (induction xs rule: unpack2.induct) auto

lemma host_port_error: "host_port lim xs = Inl e \<Longrightarrow> exn_cls e = ValueError"
  by (auto simp add: host_port_def split: sum.splits prod.splits
      dest: unpack2_error py_int_error)

lemma host_port_good:
  "\<not> endpoint_malformed ep \<Longrightarrow> \<not> port_not_integer lim ep \<Longrightarrow>
   host_port lim (py_split CHR '':'' ep) = Inr (endpoint_of lim ep)"
proof -
  assume a: "\<not> endpoint_malformed ep" and b: "\<not> port_not_integer lim ep"
  from a obtain h p where hp: "py_split CHR '':'' ep = [h, p]"
    by (auto simp add: endpoint_malformed_def length_Suc_conv numeral_2_eq_2)
  from b hp obtain n where "py_int lim p = Inr n"
    by (cases "py_int lim p") (simp_all add: port_not_integer_def)
  with hp show ?thesis by (simp add: host_port_def endpoint_of_def)
qed

lemma host_port_bad:
  "endpoint_malformed ep \<or> port_not_integer lim ep \<Longrightarrow> isl (host_port lim (py_split CHR '':'' ep))"
proof (cases "endpoint_malformed ep")
  case True
  then have "isl (unpack2 (py_split CHR '':'' ep))"
    by (simp add: endpoint_malformed_def unpack2_bad)
  then show ?thesis by (auto simp add: host_port_def isl_def)
next
  case False
  assume "endpoint_malformed ep \<or> port_not_integer lim ep"
  with False have b: "port_not_integer lim ep" by simp
  from False obtain h p where hp: "py_split CHR '':'' ep = [h, p]"
    by (auto simp add: endpoint_malformed_def length_Suc_conv numeral_2_eq_2)
  from b hp have "isl (py_int lim p)" by (simp add: port_not_integer_def)
  with hp show ?thesis by (auto simp add: host_port_def isl_def)
qed

lemma map_exn_error: "map_exn f xs = Inl e \<Longrightarrow> \<exists>x \<in> set xs. f x = Inl e"
  by (induction xs arbitrary: e) (auto split: sum.splits)

lemma map_exn_good: "(\<And>x. x \<in> set xs \<Longrightarrow> f x = Inr (g x)) \<Longrightarrow> map_exn f xs = Inr (map g xs)"
  by (induction xs) simp_all

lemma map_exn_bad: "x \<in> set xs \<Longrightarrow> isl (f x) \<Longrightarrow> isl (map_exn f xs)"
  by (induction xs) (auto simp add: isl_def split: sum.splits)

lemma map_exn_map: "map_exn f (map g xs) = map_exn (\<lambda>x. f (g x)) xs"
  by (induction xs) (simp_all split: sum.splits)

lemma endpoints_good:
  assumes "\<not> list_ex (\<lambda>ep. endpoint_malformed ep \<or> port_not_integer lim ep) eps"
  shows "map_exn (host_port lim) (map (py_split CHR '':'') eps) = Inr (map (endpoint_of lim) eps)"
  unfolding map_exn_map
  using assms by (intro map_exn_good host_port_good) (auto simp add: list_ex_iff)

lemma endpoints_bad:
  "list_ex (\<lambda>ep. endpoint_malformed ep \<or> port_not_integer lim ep) eps \<Longrightarrow>
   \<exists>e. map_exn (host_port lim) (map (py_split CHR '':'') eps) = Inl e \<and> exn_cls e = ValueError"
proof -
  assume "list_ex (\<lambda>ep. endpoint_malformed ep \<or> port_not_integer lim ep) eps"
  then obtain ep where ep: "ep \<in> set eps"
    and bad: "endpoint_malformed ep \<or> port_not_integer lim ep"
    by (auto simp add: list_ex_iff)
  have "py_split CHR '':'' ep \<in> set (map (py_split CHR '':'') eps)" using ep by simp
  from map_exn_bad [of "py_split CHR '':'' ep" "map (py_split CHR '':'') eps" "host_port lim"]
    this host_port_bad [OF bad]
  obtain e where e: "map_exn (host_port lim) (map (py_split CHR '':'') eps) = Inl e"
    by (auto simp add: isl_def)
  from map_exn_error [OF e] host_port_error have "exn_cls e = ValueError" by blast
  with e show ?thesis by blast
qed

lemma caught_value_error:
  "exn_cls e = ValueError \<Longrightarrow> caught_by e [ValueError, TypeError, IndexError]"
  by (simp add: caught_by_def)

lemma empty_list_is_malformed:
  "endpoint_list_empty s \<Longrightarrow>
   list_ex (\<lambda>ep. endpoint_malformed ep \<or> port_not_integer lim ep) (endpoint_texts s)"
  by (simp add: endpoint_list_empty_def endpoint_texts_def endpoint_malformed_def)

lemma parse_short:
  assumes "length (segments s) < 3"
  shows "parse_connection_string lim s = Inl (incorrect_format s)"
proof -
  have ne: "segments s \<noteq> []" by (simp add: segments_def py_split_nonempty)
  have i2: "py_index (py_split CHR ''/'' s) 2 = Inl (Exn IndexError ''list index out of range'')"
    using assms by (simp add: py_index_def segments_def)
  obtain r where r: "parse_body lim s = r" by simp
  have "\<exists>e. parse_body lim s = Inl e \<and> (exn_cls e = ValueError \<or> exn_cls e = IndexError)"
  proof (cases "length (segments s) < 2")
    case True
    then show ?thesis
      using ne by (simp add: parse_body_def Let_def py_index_def segments_def)
  next
    case False
    then have two: "1 < length (py_split CHR ''/'' s)" by (simp add: segments_def)
    show ?thesis
    proof (cases "map_exn (host_port lim)
        (map (py_split CHR '':'') (py_split CHR '','' (py_split CHR ''/'' s ! 1)))")
      case (Inl e)
      from map_exn_error [OF Inl] host_port_error have "exn_cls e = ValueError" by blast
      then show ?thesis
        using two Inl by (simp add: parse_body_def Let_def py_index_def)
    next
      case (Inr eps)
      then show ?thesis
        using two i2 by (simp add: parse_body_def Let_def py_index_def)
    qed
  qed
  then show ?thesis
    by (auto simp add: parse_connection_string_def caught_by_def)
qed

lemma parse_long:
  assumes "\<not> length (segments s) < 3"
  shows "parse_connection_string lim s =
     (if list_ex (\<lambda>ep. endpoint_malformed ep \<or> port_not_integer lim ep) (endpoint_texts s)
      then Inl (incorrect_format s) else Inr (descriptor_of lim s))"
proof -
  have len: "py_split CHR ''/'' s \<noteq> [] \<and> 1 < length (py_split CHR ''/'' s) \<and>
      2 < length (py_split CHR ''/'' s)"
    using assms by (simp add: segments_def py_split_nonempty)
  show ?thesis
  proof (cases "list_ex (\<lambda>ep. endpoint_malformed ep \<or> port_not_integer lim ep) (endpoint_texts s)")
    case True
    from endpoints_bad [OF True] obtain e
      where e: "map_exn (host_port lim) (map (py_split CHR '':'')
          (py_split CHR '','' (py_split CHR ''/'' s ! 1))) = Inl e"
        and v: "exn_cls e = ValueError"
      by (auto simp add: endpoint_texts_def segments_def)
    have "parse_body lim s = Inl e"
      using len e by (simp add: parse_body_def Let_def py_index_def)
    then show ?thesis
      using True v by (simp add: parse_connection_string_def caught_value_error)
  next
    case False
    from endpoints_good [OF False]
    have "map_exn (host_port lim) (map (py_split CHR '':'')
        (py_split CHR '','' (py_split CHR ''/'' s ! 1))) = Inr (map (endpoint_of lim) (endpoint_texts s))"
      by (simp add: endpoint_texts_def segments_def)
    then have "parse_body lim s = Inr (descriptor_of lim s)"
      using len by (simp add: parse_body_def Let_def py_index_def descriptor_of_def segments_def)
    then show ?thesis
      using False by (simp add: parse_connection_string_def)
  qed
qed

lemma parse_characterised:
  "parse_connection_string lim s =
     (if rejected lim s then Inl (incorrect_format s) else Inr (descriptor_of lim s))"
proof (cases "length (segments s) < 3")
  case True
  then show ?thesis by (simp add: parse_short rejected_def segment_missing_def)
next
  case False
  then show ?thesis
    using empty_list_is_malformed [of s]
    by (auto simp add: parse_long rejected_def segment_missing_def)
qed

lemma endpoint_texts_nonempty: "endpoint_texts s \<noteq> []"
  by (simp add: endpoint_texts_def py_split_nonempty)

lemma py_split_pieces: "x \<in> set (py_split c s) \<Longrightarrow> c \<notin> set x"
proof (induction s arbitrary: x)
  case Nil
  then show ?case by simp
next
  case (Cons a s)
  then show ?case
    using py_split_nonempty [of c s] by (auto split: if_splits list.splits)
qed

lemma segments_extended: "segments (s @ CHR ''/'' # extra) = segments s @ segments extra"
  by (simp add: segments_def py_split_append_sep)

lemma rejected_extended:
  assumes "\<not> length (segments s) < 3"
  shows "rejected lim (s @ CHR ''/'' # extra) = rejected lim s \<and>
         descriptor_of lim (s @ CHR ''/'' # extra) = descriptor_of lim s"
proof -
  have n: "(segments s @ t) ! 0 = segments s ! 0 \<and> (segments s @ t) ! 1 = segments s ! 1 \<and>
      (segments s @ t) ! 2 = segments s ! 2" for t
    using assms by (auto simp add: nth_append)
  have l: "\<not> length (segments s) + length (segments extra) < 3" using assms by simp
  show ?thesis
    using n [of "segments extra"] l assms
    by (simp add: rejected_def segment_missing_def endpoint_list_empty_def endpoint_texts_def
        descriptor_of_def segments_extended)
qed

lemma segments_bare:
  assumes "CHR ''/'' \<notin> set h"
  shows "segments (CHR ''/'' # h @ ''/'') = [[], h, []]"
proof -
  have "py_split CHR ''/'' (h @ CHR ''/'' # []) = py_split CHR ''/'' h @ py_split CHR ''/'' []"
    by (rule py_split_append_sep)
  then show ?thesis using assms by (simp add: segments_def py_split_no_sep)
qed

lemma digits_tail_all: "list_all is_digit ds \<Longrightarrow> digits_tail ds"
  by (induction ds rule: digits_tail.induct) auto

lemma digit_not_sign_or_space:
  "is_digit c \<Longrightarrow>
   \<not> py_int_space c \<and> c \<noteq> CHR ''+'' \<and> c \<noteq> CHR ''-'' \<and> c \<noteq> CHR '':'' \<and>
   c \<noteq> CHR '','' \<and> c \<noteq> CHR ''/''"
  by (auto simp add: is_digit_def py_int_space_def)

lemma py_int_digits:
  assumes "list_all is_digit ds" and "ds \<noteq> []"
  shows "isl (py_int lim ds) = (640 < length ds \<and> 0 < lim \<and> lim < length ds)"
proof -
  obtain c r where ds: "ds = c # r" using assms(2) by (cases ds) auto
  have c: "is_digit c" and r: "list_all is_digit r" using assms(1) ds by simp_all
  have lead: "dropWhile py_int_space (c # r) = c # r"
    using c digit_not_sign_or_space [of c] by simp
  have body: "takeWhile (\<lambda>c. is_digit c \<or> c = CHR ''_'') (c # r) = c # r"
    using c r by (simp add: takeWhile_eq_all_conv list_all_iff)
  have rest: "dropWhile (\<lambda>c. is_digit c \<or> c = CHR ''_'') (c # r) = []"
    using c r by (simp add: dropWhile_eq_Nil_conv list_all_iff)
  have wf: "digits_wellformed (c # r)" using c r by (simp add: digits_tail_all)
  have cnt: "digits_count (c # r) = length (c # r)"
    using c r by (simp add: digits_count_def list_all_iff)
  have sign: "c \<noteq> CHR ''+'' \<and> c \<noteq> CHR ''-''" using digit_not_sign_or_space [OF c] by simp
  have "py_int lim (c # r) =
      (if exceeds_limit lim (c # r)
       then Inl (Exn ValueError ''Exceeds the limit for integer string conversion'')
       else Inr (int (digits_value (c # r))))"
    unfolding py_int_def lead Let_def
    using sign
    by (simp add: body rest wf
        del: takeWhile.simps dropWhile.simps digits_wellformed.simps)
  then show ?thesis unfolding ds by (simp add: exceeds_limit_def cnt del: length_Cons)
qed

lemma segments_three:
  assumes "CHR ''/'' \<notin> set a" and "CHR ''/'' \<notin> set b" and "CHR ''/'' \<notin> set c"
  shows "segments (a @ CHR ''/'' # b @ CHR ''/'' # c) = [a, b, c]"
  using assms by (simp add: segments_def py_split_append_sep py_split_no_sep)

lemma rejected_digit_port:
  assumes "CHR ''/'' \<notin> set name" and "CHR ''/'' \<notin> set h" and "CHR '','' \<notin> set h"
    and "CHR '':'' \<notin> set h" and "CHR ''/'' \<notin> set db"
    and "ds \<noteq> []" and "list_all is_digit ds"
  shows "rejected lim (name @ CHR ''/'' # (h @ CHR '':'' # ds) @ CHR ''/'' # db) =
         (640 < length ds \<and> 0 < lim \<and> lim < length ds)"
proof -
  have nd: "CHR ''/'' \<notin> set ds \<and> CHR '','' \<notin> set ds \<and> CHR '':'' \<notin> set ds"
    using assms(7) digit_not_sign_or_space by (auto simp add: list_all_iff)
  have segs: "segments (name @ CHR ''/'' # (h @ CHR '':'' # ds) @ CHR ''/'' # db) =
      [name, h @ CHR '':'' # ds, db]"
    using assms(1,2,5) nd by (intro segments_three) simp_all
  have texts: "py_split CHR '','' (h @ CHR '':'' # ds) = [h @ CHR '':'' # ds]"
    using assms(3) nd by (intro py_split_no_sep) simp
  have parts: "py_split CHR '':'' (h @ CHR '':'' # ds) = [h, ds]"
    using assms(4) nd by (simp add: py_split_append_sep py_split_no_sep)
  show ?thesis
    unfolding rejected_def segment_missing_def endpoint_list_empty_def endpoint_texts_def segs
    using py_int_digits [OF assms(7,6), of lim]
    by (simp add: texts endpoint_malformed_def port_not_integer_def parts)
qed

section \<open>Properties of parse\_connection\_string\<close>

text \<open>
  C5, as the code has it. For every string the parser raises \<^verbatim>\<open>ImproperlyConfigured\<close>
  with the message \<^verbatim>\<open>Incorrect format '<the string>'\<close> exactly when a segment is missing
  (fewer than three pieces between slashes), the endpoint list is empty, an endpoint does not
  split at colons into two pieces, or a port is not accepted by \<^verbatim>\<open>int\<close>; otherwise it
  returns the complete descriptor: the first piece, the endpoints of the second piece (at least
  one) and the third piece. A port that is a run of digits is not accepted exactly when the
  run is longer than 640 digits and than the interpreter's digit limit, if there is one.
  Nothing makes the pieces non-empty. \<^verbatim>\<open>mymaster/bad/0\<close> fails and
  \<^verbatim>\<open>mymaster/host:1234/0\<close> gives the one endpoint \<open>(host, 1234)\<close>.
\<close>

theorem parse_connection_string_cases:
  "parse_connection_string lim s =
     (if rejected lim s
      then Inl (Exn ImproperlyConfigured (''Incorrect format '' @ [CHR 0x27] @ s @ [CHR 0x27]))
      else Inr (descriptor_of lim s)) \<and>
   fst (snd (descriptor_of lim s)) \<noteq> [] \<and>
   (\<forall>name h ds db.
      CHR ''/'' \<notin> set name \<and> CHR ''/'' \<notin> set h \<and> CHR '','' \<notin> set h \<and>
      CHR '':'' \<notin> set h \<and> CHR ''/'' \<notin> set db \<and> ds \<noteq> [] \<and> list_all is_digit ds \<longrightarrow>
      rejected lim (name @ CHR ''/'' # (h @ CHR '':'' # ds) @ CHR ''/'' # db) =
        (640 < length ds \<and> 0 < lim \<and> lim < length ds)) \<and>
   parse_connection_string lim ''mymaster/bad/0'' =
     Inl (Exn ImproperlyConfigured
           (''Incorrect format '' @ [CHR 0x27] @ ''mymaster/bad/0'' @ [CHR 0x27])) \<and>
   parse_connection_string lim ''mymaster/host:1234/0'' =
     Inr (''mymaster'', [(''host'', 1234)], ''0'')"
proof (intro conjI)
  show "parse_connection_string lim s =
     (if rejected lim s
      then Inl (Exn ImproperlyConfigured (''Incorrect format '' @ [CHR 0x27] @ s @ [CHR 0x27]))
      else Inr (descriptor_of lim s))"
    using parse_characterised [of lim s] by (simp add: incorrect_format_def)
  show "fst (snd (descriptor_of lim s)) \<noteq> []"
    by (simp add: descriptor_of_def endpoint_texts_nonempty)
  show "\<forall>name h ds db.
      CHR ''/'' \<notin> set name \<and> CHR ''/'' \<notin> set h \<and> CHR '','' \<notin> set h \<and>
      CHR '':'' \<notin> set h \<and> CHR ''/'' \<notin> set db \<and> ds \<noteq> [] \<and> list_all is_digit ds \<longrightarrow>
      rejected lim (name @ CHR ''/'' # (h @ CHR '':'' # ds) @ CHR ''/'' # db) =
        (640 < length ds \<and> 0 < lim \<and> lim < length ds)"
    using rejected_digit_port by blast
  have bad: "rejected lim ''mymaster/bad/0''"
    by (simp add: rejected_def segment_missing_def endpoint_list_empty_def endpoint_texts_def
        segments_def endpoint_malformed_def)
  show "parse_connection_string lim ''mymaster/bad/0'' =
     Inl (Exn ImproperlyConfigured
           (''Incorrect format '' @ [CHR 0x27] @ ''mymaster/bad/0'' @ [CHR 0x27]))"
    using bad by (simp add: parse_characterised incorrect_format_def)
  have port: "py_int lim ''1234'' = Inr 1234"
    by (simp add: py_int_def py_int_space_def is_digit_def exceeds_limit_def digits_count_def
        digits_value_def digit_val_def)
  have good: "\<not> rejected lim ''mymaster/host:1234/0'' \<and>
      descriptor_of lim ''mymaster/host:1234/0'' = (''mymaster'', [(''host'', 1234)], ''0'')"
    using port
    by (simp add: rejected_def segment_missing_def endpoint_list_empty_def endpoint_texts_def
        segments_def endpoint_malformed_def port_not_integer_def descriptor_of_def
        endpoint_of_def)
  show "parse_connection_string lim ''mymaster/host:1234/0'' =
     Inr (''mymaster'', [(''host'', 1234)], ''0'')"
    using good by (simp add: parse_characterised)
qed

theorem parse_connection_string_cases_witness:
  "parse_connection_string 4300 ''cluster1/h1:1, h2:+2_0 /3'' =
     Inr (''cluster1'', [(''h1'', 1), ('' h2'', 20)], ''3'') \<and>
   parse_connection_string 4300 ''cluster1/h1:1,h2:2x/3'' =
     Inl (Exn ImproperlyConfigured
           (''Incorrect format '' @ [CHR 0x27] @ ''cluster1/h1:1,h2:2x/3'' @ [CHR 0x27])) \<and>
   parse_connection_string 4300
       (''m'' @ CHR ''/'' # (''h'' @ CHR '':'' # replicate 4301 CHR ''1'') @ CHR ''/'' # ''0'') =
     Inl (Exn ImproperlyConfigured
           (''Incorrect format '' @ [CHR 0x27] @
            (''m'' @ CHR ''/'' # (''h'' @ CHR '':'' # replicate 4301 CHR ''1'') @ CHR ''/'' # ''0'') @
            [CHR 0x27])) \<and>
   \<not> rejected 0
       (''m'' @ CHR ''/'' # (''h'' @ CHR '':'' # replicate 4301 CHR ''1'') @ CHR ''/'' # ''0'')"
proof -
  have a: "\<not> rejected 4300 ''cluster1/h1:1, h2:+2_0 /3'' \<and>
      descriptor_of 4300 ''cluster1/h1:1, h2:+2_0 /3'' =
        (''cluster1'', [(''h1'', 1), ('' h2'', 20)], ''3'')"
    by code_simp
  have b: "rejected 4300 ''cluster1/h1:1,h2:2x/3''" by code_simp
  have pre: "CHR ''/'' \<notin> set ''m'' \<and> CHR ''/'' \<notin> set ''h'' \<and> CHR '','' \<notin> set ''h'' \<and>
      CHR '':'' \<notin> set ''h'' \<and> CHR ''/'' \<notin> set ''0'' \<and>
      replicate 4301 CHR ''1'' \<noteq> [] \<and> list_all is_digit (replicate 4301 CHR ''1'')"
    by (simp add: list_all_iff is_digit_def)
  have len: "length (replicate 4301 CHR ''1'') = 4301" by simp
  note big = parse_connection_string_cases [of 4300
      "''m'' @ CHR ''/'' # (''h'' @ CHR '':'' # replicate 4301 CHR ''1'') @ CHR ''/'' # ''0''"]
  note free = parse_connection_string_cases [of 0 "''m''"]
  have "rejected 4300
      (''m'' @ CHR ''/'' # (''h'' @ CHR '':'' # replicate 4301 CHR ''1'') @ CHR ''/'' # ''0'') =
      (640 < length (replicate 4301 CHR ''1'') \<and> (0::nat) < 4300 \<and>
       4300 < length (replicate 4301 CHR ''1''))"
    using big pre by blast
  then have c: "rejected 4300
      (''m'' @ CHR ''/'' # (''h'' @ CHR '':'' # replicate 4301 CHR ''1'') @ CHR ''/'' # ''0'')"
    by (simp only: len) simp
  have "rejected 0
      (''m'' @ CHR ''/'' # (''h'' @ CHR '':'' # replicate 4301 CHR ''1'') @ CHR ''/'' # ''0'') =
      (640 < length (replicate 4301 CHR ''1'') \<and> (0::nat) < 0 \<and>
       0 < length (replicate 4301 CHR ''1''))"
    using free pre by blast
  then have d: "\<not> rejected 0
      (''m'' @ CHR ''/'' # (''h'' @ CHR '':'' # replicate 4301 CHR ''1'') @ CHR ''/'' # ''0'')"
    by simp
  from parse_connection_string_cases [of 4300 "''cluster1/h1:1, h2:+2_0 /3''"]
    parse_connection_string_cases [of 4300 "''cluster1/h1:1,h2:2x/3''"] big a b c d
  show ?thesis by simp
qed

text \<open>
  A string that meets none of the failure conditions and whose descriptor is not valid: the
  cluster name is empty.
\<close>

theorem parse_invalid_descriptor_counterexample:
  "parse_connection_string 4300 ''/host:1234/0'' = Inr ('''', [(''host'', 1234)], ''0'') \<and>
   \<not> descriptor_valid ('''', [(''host'', 1234)], ''0'')"
  by code_simp

text \<open>
  C8, as the code has it. The parser succeeds only on a string with at least three pieces
  between slashes, and fails with \<^verbatim>\<open>ImproperlyConfigured\<close> on every string with fewer.
  Pieces after the third are not looked at: a string that parses still parses, to the same
  descriptor, when a slash and anything else is put after it.
\<close>

theorem parse_segment_count:
  "(\<forall>d. parse_connection_string lim s = Inr d \<longrightarrow> 3 \<le> length (segments s)) \<and>
   (length (segments s) < 3 \<longrightarrow> parse_connection_string lim s = Inl (incorrect_format s)) \<and>
   (\<forall>d extra. parse_connection_string lim s = Inr d \<longrightarrow>
      parse_connection_string lim (s @ CHR ''/'' # extra) = Inr d)"
proof (intro conjI allI impI)
  fix d assume "parse_connection_string lim s = Inr d"
  then show "3 \<le> length (segments s)"
    using parse_short [of s] by (cases "length (segments s) < 3") simp_all
next
  assume "length (segments s) < 3"
  then show "parse_connection_string lim s = Inl (incorrect_format s)" by (rule parse_short)
next
  fix d extra assume ok: "parse_connection_string lim s = Inr d"
  then have long: "\<not> length (segments s) < 3"
    using parse_short [of s] by (cases "length (segments s) < 3") simp_all
  from ok have "\<not> rejected lim s \<and> d = descriptor_of lim s"
    by (simp add: parse_characterised split: if_splits)
  then show "parse_connection_string lim (s @ CHR ''/'' # extra) = Inr d"
    using rejected_extended [OF long, of lim extra] by (simp add: parse_characterised)
qed

theorem parse_segment_count_witness:
  "3 \<le> length (segments ''mymaster/host:1234/0'') \<and>
   parse_connection_string 4300 ''mymaster/host:1234'' =
     Inl (incorrect_format ''mymaster/host:1234'') \<and>
   parse_connection_string 4300 (''mymaster/host:1234/0'' @ CHR ''/'' # ''1/2'') =
     Inr (''mymaster'', [(''host'', 1234)], ''0'')"
proof -
  have ok: "parse_connection_string 4300 ''mymaster/host:1234/0'' =
      Inr (''mymaster'', [(''host'', 1234)], ''0'')"
    by code_simp
  have short: "length (segments ''mymaster/host:1234'') < 3" by code_simp
  note a = parse_segment_count [of 4300 "''mymaster/host:1234/0''"]
  note b = parse_segment_count [of 4300 "''mymaster/host:1234''"]
  have 1: "3 \<le> length (segments ''mymaster/host:1234/0'')" using a ok by blast
  have 2: "parse_connection_string 4300 ''mymaster/host:1234'' =
      Inl (incorrect_format ''mymaster/host:1234'')"
    using b short by blast
  have 3: "parse_connection_string 4300 (''mymaster/host:1234/0'' @ CHR ''/'' # ''1/2'') =
      Inr (''mymaster'', [(''host'', 1234)], ''0'')"
    using a ok by blast
  from 1 2 3 show ?thesis by blast
qed

text \<open>A string of four pieces that parses.\<close>

theorem parse_four_segments_counterexample:
  "length (segments ''mymaster/host:1234/0/extra'') = 4 \<and>
   parse_connection_string 4300 ''mymaster/host:1234/0/extra'' =
     Inr (''mymaster'', [(''host'', 1234)], ''0'')"
  by code_simp

text \<open>
  C9, as the code has it. A descriptor the parser returns has at least one endpoint, and as
  many as the second piece has parts between commas; each part splits at its colon into the
  host and a text of which the port is the integer. The cluster name is the first piece and the
  db index the third, as they stand. No piece has to be non-empty: with the same endpoint list
  between an empty cluster name and an empty db index the string parses as well.
\<close>

theorem parse_result_shape:
  assumes "parse_connection_string lim s = Inr (name, eps, db)"
  shows "eps \<noteq> [] \<and> 3 \<le> length (segments s) \<and>
         name = segments s ! 0 \<and> db = segments s ! 2 \<and>
         list_all2 (\<lambda>ep t. \<exists>pt. py_split CHR '':'' t = [fst ep, pt] \<and> py_int lim pt = Inr (snd ep))
           eps (endpoint_texts s) \<and>
         parse_connection_string lim (CHR ''/'' # segments s ! 1 @ ''/'') = Inr ([], eps, [])"
proof -
  have long: "\<not> length (segments s) < 3"
    using assms parse_short [of s] by (cases "length (segments s) < 3") simp_all
  from assms have nr: "\<not> rejected lim s" and d: "(name, eps, db) = descriptor_of lim s"
    by (simp_all add: parse_characterised split: if_splits)
  from d have name: "name = segments s ! 0" and db: "db = segments s ! 2"
    and eps: "eps = map (endpoint_of lim) (endpoint_texts s)"
    by (simp_all add: descriptor_of_def)
  have ne: "eps \<noteq> []" using eps by (simp add: endpoint_texts_nonempty)
  from nr long have good:
    "\<not> list_ex (\<lambda>ep. endpoint_malformed ep \<or> port_not_integer lim ep) (endpoint_texts s)"
    by (simp add: rejected_def segment_missing_def split: if_splits)
  have each: "\<exists>pt. py_split CHR '':'' t = [fst (endpoint_of lim t), pt] \<and>
      py_int lim pt = Inr (snd (endpoint_of lim t))" if "t \<in> set (endpoint_texts s)" for t
  proof -
    from good that have a: "\<not> endpoint_malformed t" and b: "\<not> port_not_integer lim t"
      by (auto simp add: list_ex_iff)
    from a obtain h p where hp: "py_split CHR '':'' t = [h, p]"
      by (auto simp add: endpoint_malformed_def length_Suc_conv numeral_2_eq_2)
    from b hp obtain n where "py_int lim p = Inr n"
      by (cases "py_int lim p") (simp_all add: port_not_integer_def)
    with hp show ?thesis by (simp add: endpoint_of_def)
  qed
  have shape: "list_all2
      (\<lambda>ep t. \<exists>pt. py_split CHR '':'' t = [fst ep, pt] \<and> py_int lim pt = Inr (snd ep))
      eps (endpoint_texts s)"
    unfolding eps list_all2_map1 by (simp add: list_all2_same each)
  define h where "h = segments s ! 1"
  have piece: "h \<in> set (py_split CHR ''/'' s)"
    using long by (simp add: segments_def h_def)
  have bare: "segments (CHR ''/'' # h @ ''/'') = [[], h, []]"
    using py_split_pieces [OF piece] by (rule segments_bare)
  have nonempty: "h \<noteq> []"
    using nr long by (simp add: rejected_def segment_missing_def endpoint_list_empty_def h_def
        split: if_splits)
  have good_h: "\<not> list_ex (\<lambda>ep. endpoint_malformed ep \<or> port_not_integer lim ep)
      (py_split CHR '','' h)"
    using good by (simp add: endpoint_texts_def h_def)
  have eps_h: "eps = map (endpoint_of lim) (py_split CHR '','' h)"
    using eps by (simp add: endpoint_texts_def h_def)
  have "\<not> rejected lim (CHR ''/'' # h @ ''/'') \<and>
      descriptor_of lim (CHR ''/'' # h @ ''/'') = ([], eps, [])"
    using good_h nonempty eps_h
    by (simp add: rejected_def segment_missing_def endpoint_list_empty_def endpoint_texts_def
        descriptor_of_def bare)
  then have "parse_connection_string lim (CHR ''/'' # h @ ''/'') = Inr ([], eps, [])"
    by (simp add: parse_characterised)
  with ne long name db shape show ?thesis by (simp add: h_def)
qed

theorem parse_result_shape_witness:
  "parse_connection_string 4300 (CHR ''/'' # segments ''mymaster/host:1234/0'' ! 1 @ ''/'') =
     Inr ([], [(''host'', 1234)], []) \<and>
   ''mymaster'' = segments ''mymaster/host:1234/0'' ! 0 \<and>
   ''0'' = segments ''mymaster/host:1234/0'' ! 2"
proof -
  have ok: "parse_connection_string 4300 ''mymaster/host:1234/0'' =
      Inr (''mymaster'', [(''host'', 1234)], ''0'')"
    by code_simp
  from parse_result_shape [OF ok] show ?thesis by blast
qed

text \<open>
  Strings with an empty cluster name, an empty host and an empty db index that parse, to a
  descriptor that is not valid.
\<close>

theorem parse_empty_pieces_counterexample:
  "parse_connection_string 4300 ''/:1/'' = Inr ('''', [('''', 1)], '''') \<and>
   \<not> descriptor_valid ('''', [('''', 1)], '''') \<and>
   parse_connection_string 4300 ''mymaster/host:1234/'' =
     Inr (''mymaster'', [(''host'', 1234)], '''')"
  by code_simp

end
